theory Spec2Isabelle
  imports Main "HOL-Library.Sublist"
begin

section \<open>JavaScript strings\<close>

text \<open>
  A JavaScript string is a sequence of code units. The model uses \<open>string\<close>, a list of
  \<open>char\<close>, and reads each \<open>char\<close> as the code unit of the same number (0 to 255).
  The white space of \<open>String.prototype.trim\<close> and of the regular expression class
  \<open>\s\<close> is, in that range, TAB, LF, VT, FF, CR, SPACE and NBSP.
\<close>

definition isWhiteSpace :: "char \<Rightarrow> bool" where
  "isWhiteSpace c =
     (c = CHR 0x09 \<or> c = CHR 0x0A \<or> c = CHR 0x0B \<or> c = CHR 0x0C \<or> c = CHR 0x0D
      \<or> c = CHR 0x20 \<or> c = CHR 0xA0)"

definition trimStart :: "string \<Rightarrow> string" where
  "trimStart s = dropWhile isWhiteSpace s"

definition trimEnd :: "string \<Rightarrow> string" where
  "trimEnd s = rev (dropWhile isWhiteSpace (rev s))"

definition trim :: "string \<Rightarrow> string" where
  "trim s = trimEnd (trimStart s)"

text \<open>\<open>s.startsWith(p)\<close>, \<open>s.endsWith(p)\<close> and \<open>s.includes(p)\<close>.\<close>

fun startsWith :: "string \<Rightarrow> string \<Rightarrow> bool" where
  "startsWith s [] = True"
| "startsWith [] (p # ps) = False"
| "startsWith (c # cs) (p # ps) = (c = p \<and> startsWith cs ps)"

definition endsWith :: "string \<Rightarrow> string \<Rightarrow> bool" where
  "endsWith s p = startsWith (rev s) (rev p)"

fun includes_str :: "string \<Rightarrow> string \<Rightarrow> bool" where
  "includes_str [] p = (p = [])"
| "includes_str (c # cs) p = (startsWith (c # cs) p \<or> includes_str cs p)"

text \<open>\<open>s.split(d)\<close> for a separator of one code unit: the empty string gives one empty piece.\<close>

fun split_on :: "char \<Rightarrow> string \<Rightarrow> string list" where
  "split_on d [] = [[]]"
| "split_on d (c # cs) =
     (if c = d then [] # split_on d cs
      else (case split_on d cs of [] \<Rightarrow> [[c]] | l # ls \<Rightarrow> (c # l) # ls))"

text \<open>\<open>parts.join(d)\<close>.\<close>

fun join_with :: "string \<Rightarrow> string list \<Rightarrow> string" where
  "join_with d [] = []"
| "join_with d [x] = x"
| "join_with d (x # y # ys) = x @ d @ join_with d (y # ys)"

text \<open>
  \<open>s.lastIndexOf(c)\<close> is the index of the last occurrence, or -1; \<open>s.substring(a, b)\<close>
  clamps both indices to the range of the string and swaps them when \<open>a > b\<close>;
  \<open>s.substring(a)\<close> runs to the end of the string.
\<close>

fun lastIndexOf_from :: "char \<Rightarrow> string \<Rightarrow> int \<Rightarrow> int \<Rightarrow> int" where
  "lastIndexOf_from d [] i found = found"
| "lastIndexOf_from d (c # cs) i found =
     lastIndexOf_from d cs (i + 1) (if c = d then i else found)"

definition lastIndexOf :: "string \<Rightarrow> char \<Rightarrow> int" where
  "lastIndexOf s d = lastIndexOf_from d s 0 (- 1)"

definition clamp_index :: "string \<Rightarrow> int \<Rightarrow> nat" where
  "clamp_index s i = (if i < 0 then 0 else min (nat i) (length s))"

definition substring :: "string \<Rightarrow> int \<Rightarrow> int \<Rightarrow> string" where
  "substring s a b =
     (let x = clamp_index s a; y = clamp_index s b;
          from = min x y; to = max x y
      in take (to - from) (drop from s))"

definition substring_from :: "string \<Rightarrow> int \<Rightarrow> string" where
  "substring_from s a = drop (clamp_index s a) s"

text \<open>The decimal text of an integer, as a template literal prints a number.\<close>

definition digit_char :: "nat \<Rightarrow> char" where
  "digit_char d = ''0123456789'' ! d"

fun show_nat :: "nat \<Rightarrow> string" where
  "show_nat n = (if n < 10 then [digit_char n] else show_nat (n div 10) @ [digit_char (n mod 10)])"

declare show_nat.simps [simp del]

definition show_int :: "int \<Rightarrow> string" where
  "show_int i = (if i < 0 then CHR ''-'' # show_nat (nat (- i)) else show_nat (nat i))"

text \<open>\<open>s.toLowerCase()\<close> on the code units 0 to 255.\<close>

definition upper_units :: string where
  "upper_units = ''ABCDEFGHIJKLMNOPQRSTUVWXYZ'' @
     [CHR 0xC0, CHR 0xC1, CHR 0xC2, CHR 0xC3, CHR 0xC4, CHR 0xC5, CHR 0xC6, CHR 0xC7, CHR 0xC8,
      CHR 0xC9, CHR 0xCA, CHR 0xCB, CHR 0xCC, CHR 0xCD, CHR 0xCE, CHR 0xCF, CHR 0xD0, CHR 0xD1,
      CHR 0xD2, CHR 0xD3, CHR 0xD4, CHR 0xD5, CHR 0xD6, CHR 0xD8, CHR 0xD9, CHR 0xDA, CHR 0xDB,
      CHR 0xDC, CHR 0xDD, CHR 0xDE]"

definition lower_units :: string where
  "lower_units = ''abcdefghijklmnopqrstuvwxyz'' @
     [CHR 0xE0, CHR 0xE1, CHR 0xE2, CHR 0xE3, CHR 0xE4, CHR 0xE5, CHR 0xE6, CHR 0xE7, CHR 0xE8,
      CHR 0xE9, CHR 0xEA, CHR 0xEB, CHR 0xEC, CHR 0xED, CHR 0xEE, CHR 0xEF, CHR 0xF0, CHR 0xF1,
      CHR 0xF2, CHR 0xF3, CHR 0xF4, CHR 0xF5, CHR 0xF6, CHR 0xF8, CHR 0xF9, CHR 0xFA, CHR 0xFB,
      CHR 0xFC, CHR 0xFD, CHR 0xFE]"

definition toLowerCase :: "string \<Rightarrow> string" where
  "toLowerCase s =
     map (\<lambda>c. case map_of (zip upper_units lower_units) c of None \<Rightarrow> c | Some l \<Rightarrow> l) s"

text \<open>
  \<open>parseInt(s)\<close> without a radix: leading white space and a sign are skipped, the prefix
  \<open>0x\<close> selects base 16, and the longest run of digits is read; no digit gives \<open>NaN\<close>,
  which is \<open>None\<close> here.
\<close>

definition isDigit :: "char \<Rightarrow> bool" where
  "isDigit c = (c \<in> set ''0123456789'')"

definition digit_value :: "char \<Rightarrow> nat" where
  "digit_value c = of_char c - 48"

definition hex_value :: "char \<Rightarrow> nat option" where
  "hex_value c =
     map_of (zip ''0123456789abcdefABCDEF''
               [0, 1, 2, 3, 4, 5, 6, 7, 8, 9, 10, 11, 12, 13, 14, 15, 10, 11, 12, 13, 14, 15]) c"

definition parseInt :: "string \<Rightarrow> int option" where
  "parseInt s =
     (let t = trimStart s;
          negative = startsWith t ''-'';
          t1 = (if startsWith t ''-'' \<or> startsWith t ''+'' then drop 1 t else t);
          hex = (startsWith t1 ''0x'' \<or> startsWith t1 ''0X'');
          ds = (if hex then takeWhile (\<lambda>c. hex_value c \<noteq> None) (drop 2 t1) else takeWhile isDigit t1);
          v = (if hex then foldl (\<lambda>a c. 16 * a + (case hex_value c of None \<Rightarrow> 0 | Some h \<Rightarrow> h)) 0 ds
               else foldl (\<lambda>a c. 10 * a + digit_value c) 0 ds)
      in if ds = [] then None else Some (if negative then - int v else int v))"

section \<open>The availability cache of UPicUploader\<close>

text \<open>
  The class \<open>UPicUploader\<close> (the revision with the process check and the doubled
  window for positive results). \<open>settings\<close> holds the fields of \<open>PluginSettings\<close>
  that the uploader reads. \<open>cacheTimeout\<close> is a private field that is set once,
  to 600000 milliseconds, and never assigned again.
\<close>

record PluginSettings =
  upicPath :: string
  uploadTimeout :: int
  showNotifications :: bool

record cache_entry =
  available :: bool
  timestamp :: int

record UPicUploader =
  settings :: PluginSettings
  detectedUpicPath :: "string option"
  lastCheckTime :: int
  availabilityCache :: "string \<rightharpoonup> cache_entry"

definition cacheTimeout :: int where
  "cacheTimeout = 600000"

text \<open>
  What a \<open>catch\<close> clause receives: an \<open>Error\<close> object with its message, or a value
  that is not an \<open>Error\<close>.
\<close>

datatype thrown = Error string | NonError

text \<open>
  The environment of one call, as the program can observe it. \<open>run\<close> is the outcome of
  \<open>execAsync(command, {timeout})\<close>: the promise is rejected, or resolved with the standard
  output and the standard error of the command (a time-out is a rejection). \<open>elapsed\<close> is
  the time the command takes, in milliseconds. \<open>existsSync\<close>, \<open>statSync\<close> (the value of
  \<open>isFile()\<close>, or no value when the call throws) and \<open>accessSync\<close> (false when the call
  throws) are the file system as \<open>fs\<close> shows it; \<open>homedir\<close>, \<open>tmpdir\<close>, \<open>userInfo\<close> (the
  user name, unless the call throws) and \<open>path_join\<close> are the functions of the modules
  \<open>os\<close> and \<open>path\<close>; \<open>PATH\<close> is \<open>process.env.PATH\<close>. An environment is
  fixed for the time of one call: a command that is run twice gives the same outcome.
\<close>

record env =
  isDesktop :: bool
  win32 :: bool
  run :: "string \<Rightarrow> int \<Rightarrow> thrown + string \<times> string"
  elapsed :: "string \<Rightarrow> nat"
  existsSync :: "string \<Rightarrow> bool"
  statSync :: "string \<Rightarrow> bool option"
  accessSync :: "string \<Rightarrow> bool"
  homedir :: string
  tmpdir :: string
  userInfo :: "thrown + string"
  PATH :: "string option"
  path_join :: "string \<Rightarrow> string \<Rightarrow> string"

text \<open>
  The world outside the object: the clock that \<open>Date.now()\<close> reads, in milliseconds;
  the commands handed to \<open>execAsync\<close> so far, oldest first; the texts of the notices
  shown; and \<open>probes\<close>, the calls of \<open>testUPicPath\<close> so far with their results. The last
  is not a variable of the program: it is the trace that the log lines of \<open>testUPicPath\<close>
  leave, kept to state in which order candidates are tested.
\<close>

record world =
  clock :: int
  spawned :: "string list"
  notices :: "string list"
  probes :: "(string \<times> bool) list"

definition getCachedAvailability :: "string \<Rightarrow> UPicUploader \<Rightarrow> world \<Rightarrow> bool option \<times> UPicUploader" where
  "getCachedAvailability path u w =
     (case availabilityCache u path of
        None \<Rightarrow> (None, u)
      | Some cached \<Rightarrow>
          (let now = clock w;
               effectiveTimeout = (if available cached then cacheTimeout * 2 else cacheTimeout)
           in if now - timestamp cached > effectiveTimeout
              then (None, u\<lparr>availabilityCache := (availabilityCache u)(path := None)\<rparr>)
              else (Some (available cached), u)))"

definition setCachedAvailability :: "string \<Rightarrow> bool \<Rightarrow> UPicUploader \<Rightarrow> world \<Rightarrow> UPicUploader" where
  "setCachedAvailability path a u w =
     u\<lparr>availabilityCache := (availabilityCache u)(path \<mapsto> \<lparr>available = a, timestamp = clock w\<rparr>)\<rparr>"

section \<open>Finding and testing the tool\<close>

abbreviation dq :: char where
  "dq \<equiv> CHR 0x22"

definition execAsync :: "env \<Rightarrow> string \<Rightarrow> int \<Rightarrow> world \<Rightarrow> (thrown + string \<times> string) \<times> world" where
  "execAsync e command timeout w =
     (run e command timeout,
      w\<lparr>clock := clock w + int (elapsed e command), spawned := spawned w @ [command]\<rparr>)"

definition expandPath :: "env \<Rightarrow> string \<Rightarrow> string" where
  "expandPath e path =
     (if startsWith path ''~/'' then path_join e (homedir e) (drop 2 path) else path)"

text \<open>\<open>isUPicProcessRunning\<close>: the process list is asked for the name of the tool.\<close>

definition processCheckCommand :: "env \<Rightarrow> string" where
  "processCheckCommand e =
     (if win32 e
      then ''tasklist /FI '' @ dq # ''IMAGENAME eq uPic.exe'' @ dq # '' /FO CSV | find /C ''
             @ dq # ''uPic.exe'' @ [dq]
      else ''pgrep -f '' @ dq # ''uPic'' @ dq # '' | wc -l'')"

definition isUPicProcessRunning :: "env \<Rightarrow> world \<Rightarrow> bool \<times> world" where
  "isUPicProcessRunning e w =
     (case execAsync e (processCheckCommand e) 3000 w of
        (Inl err, w') \<Rightarrow> (False, w')
      | (Inr (stdout, stderr), w') \<Rightarrow>
          (case parseInt (trim stdout) of
             None \<Rightarrow> (False, w')
           | Some processCount \<Rightarrow> (processCount > 0, w')))"

text \<open>
  \<open>testUPicPath\<close>. \<open>test_flags\<close> is its loop over the flags \<open>--version\<close> and \<open>--help\<close>;
  \<open>testUPicPath_run\<close> is its body, and \<open>testUPicPath\<close> adds the call to the trace.
  The outer \<open>catch\<close> of the source is not reached: what stands in the outer \<open>try\<close> and
  outside the inner ones (\<open>expandPath\<close>, \<open>existsSync\<close>, string operations) does not throw.
\<close>

definition upicKeywords :: "string list" where
  "upicKeywords = [''upic'', ''upload'', ''image uploader'', ''version'', ''usage:'', ''options:'']"

fun test_flags ::
  "env \<Rightarrow> string \<Rightarrow> string \<Rightarrow> string list \<Rightarrow> UPicUploader \<Rightarrow> world \<Rightarrow> bool \<times> UPicUploader \<times> world" where
  "test_flags e path expandedPath [] u w = (False, setCachedAvailability path False u w, w)"
| "test_flags e path expandedPath (flag # flags) u w =
     (let command = (if includes_str expandedPath '' ''
                     then dq # expandedPath @ dq # '' '' @ flag
                     else expandedPath @ '' '' @ flag)
      in case execAsync e command 3000 w of
           (Inr (stdout, stderr), w1) \<Rightarrow>
             (let output = toLowerCase (stdout @ stderr)
              in if list_ex (\<lambda>keyword. includes_str output keyword) upicKeywords
                 then (True, setCachedAvailability path True u w1, w1)
                 else test_flags e path expandedPath flags u w1)
         | (Inl (Error message), w1) \<Rightarrow>
             (if message \<noteq> []
              then (let errorMsg = toLowerCase message;
                        isValidUpicError =
                          (includes_str errorMsg ''upic''
                           \<and> (includes_str errorMsg ''missing required options''
                                \<or> includes_str errorMsg ''usage''
                                \<or> includes_str errorMsg ''help''
                                \<or> includes_str errorMsg ''command not found'' = False))
                    in if isValidUpicError
                       then (True, setCachedAvailability path True u w1, w1)
                       else test_flags e path expandedPath flags u w1)
              else test_flags e path expandedPath flags u w1)
         | (Inl NonError, w1) \<Rightarrow> test_flags e path expandedPath flags u w1)"

definition testUPicPath_run ::
  "env \<Rightarrow> string \<Rightarrow> UPicUploader \<Rightarrow> world \<Rightarrow> bool \<times> UPicUploader \<times> world" where
  "testUPicPath_run e path u w =
     (if path = [] then (False, u, w)
      else
       (case getCachedAvailability path u w of
          (Some cachedResult, u1) \<Rightarrow> (cachedResult, u1, w)
        | (None, u1) \<Rightarrow>
           (case isUPicProcessRunning e w of
              (True, w1) \<Rightarrow> (True, setCachedAvailability path True u1 w1, w1)
            | (False, w1) \<Rightarrow>
               (let expandedPath = expandPath e path
                in if includes_str expandedPath ''/'' \<and> \<not> existsSync e expandedPath
                   then (False, setCachedAvailability path False u1 w1, w1)
                   else if includes_str expandedPath ''/''
                           \<and> (statSync e expandedPath \<noteq> Some True \<or> \<not> accessSync e expandedPath)
                   then (False, setCachedAvailability path False u1 w1, w1)
                   else test_flags e path expandedPath [''--version'', ''--help''] u1 w1))))"

definition testUPicPath ::
  "env \<Rightarrow> string \<Rightarrow> UPicUploader \<Rightarrow> world \<Rightarrow> bool \<times> UPicUploader \<times> world" where
  "testUPicPath e path u w =
     (case testUPicPath_run e path u w of
        (ok, u', w') \<Rightarrow> (ok, u', w'\<lparr>probes := probes w' @ [(path, ok)]\<rparr>))"

text \<open>
  \<open>detectUPicPath\<close>. \<open>probe_paths\<close> is a loop that tests paths one after the other and
  returns at the first that tests positive; \<open>probe_commands\<close> is the loop over the lookup
  commands, each of which gives at most one candidate, the first line of its output.
\<close>

definition commonPaths :: "string \<Rightarrow> string list" where
  "commonPaths username =
     [''/Applications/uPic.app/Contents/MacOS/uPic'',
      ''/Applications/uPic.app/Contents/Resources/uPic'',
      ''/System/Applications/uPic.app/Contents/MacOS/uPic'',
      ''/usr/local/bin/upic'',
      ''/opt/homebrew/bin/upic'',
      ''/usr/bin/upic'',
      ''/opt/local/bin/upic'',
      ''~/Applications/uPic.app/Contents/MacOS/uPic'',
      ''/Users/'' @ username @ ''/Applications/uPic.app/Contents/MacOS/uPic'']"

definition pathCommands :: "string list" where
  "pathCommands = [''which upic'', ''whereis upic'', ''type -p upic'']"

fun probe_paths ::
  "env \<Rightarrow> string list \<Rightarrow> UPicUploader \<Rightarrow> world \<Rightarrow> string option \<times> UPicUploader \<times> world" where
  "probe_paths e [] u w = (None, u, w)"
| "probe_paths e (path # paths) u w =
     (case testUPicPath e path u w of
        (True, u', w') \<Rightarrow> (Some path, u', w')
      | (False, u', w') \<Rightarrow> probe_paths e paths u' w')"

definition first_line :: "string \<Rightarrow> string" where
  "first_line stdout = (case split_on CHR 0x0A (trim stdout) of [] \<Rightarrow> [] | l # ls \<Rightarrow> l)"

fun probe_commands ::
  "env \<Rightarrow> string list \<Rightarrow> UPicUploader \<Rightarrow> world \<Rightarrow> string option \<times> UPicUploader \<times> world" where
  "probe_commands e [] u w = (None, u, w)"
| "probe_commands e (cmd # cmds) u w =
     (case execAsync e cmd 5000 w of
        (Inl err, w1) \<Rightarrow> probe_commands e cmds u w1
      | (Inr (stdout, stderr), w1) \<Rightarrow>
          (let detectedPath = first_line stdout
           in if detectedPath \<noteq> [] \<and> detectedPath \<noteq> ''upic not found''
              then (case testUPicPath e detectedPath u w1 of
                      (True, u', w') \<Rightarrow> (Some detectedPath, u', w')
                    | (False, u', w') \<Rightarrow> probe_commands e cmds u' w')
              else probe_commands e cmds u w1))"

definition pathDirs :: "env \<Rightarrow> string list" where
  "pathDirs e =
     filter (\<lambda>dir. trim dir \<noteq> [])
       (split_on CHR '':'' (case PATH e of None \<Rightarrow> [] | Some pathEnv \<Rightarrow> pathEnv))"

definition detectUPicPath ::
  "env \<Rightarrow> UPicUploader \<Rightarrow> world \<Rightarrow> (thrown + string list) \<times> UPicUploader \<times> world" where
  "detectUPicPath e u w =
     (case (if upicPath (settings u) \<noteq> [] \<and> trim (upicPath (settings u)) \<noteq> []
            then probe_paths e [expandPath e (upicPath (settings u))] u w
            else (None, u, w)) of
        (Some expandedPath, u0, w0) \<Rightarrow> (Inr [expandedPath], u0, w0)
      | (None, u0, w0) \<Rightarrow>
         (case userInfo e of
            Inl err \<Rightarrow> (Inl err, u0, w0)
          | Inr username \<Rightarrow>
             (case probe_paths e (map (expandPath e) (commonPaths username)) u0 w0 of
                (Some expandedPath, u1, w1) \<Rightarrow> (Inr [expandedPath], u1, w1)
              | (None, u1, w1) \<Rightarrow>
                 (case probe_commands e pathCommands u1 w1 of
                    (Some detectedPath, u2, w2) \<Rightarrow> (Inr [detectedPath], u2, w2)
                  | (None, u2, w2) \<Rightarrow>
                     (case probe_paths e (map (\<lambda>dir. path_join e dir ''upic'') (pathDirs e)) u2 w2 of
                        (Some upicPath', u3, w3) \<Rightarrow> (Inr [upicPath'], u3, w3)
                      | (None, u3, w3) \<Rightarrow> (Inr [], u3, w3))))))"

text \<open>
  \<open>getAvailableUPicPath\<close>: a path found before is returned at once; otherwise the paths
  that detection returns are tested again and the first valid one is stored.
\<close>

definition getAvailableUPicPath ::
  "env \<Rightarrow> UPicUploader \<Rightarrow> world \<Rightarrow> (thrown + string option) \<times> UPicUploader \<times> world" where
  "getAvailableUPicPath e u w =
     (if detectedUpicPath u \<noteq> None \<and> detectedUpicPath u \<noteq> Some []
      then (Inr (detectedUpicPath u), u, w)
      else
       (case detectUPicPath e u w of
          (Inl err, u1, w1) \<Rightarrow> (Inl err, u1, w1)
        | (Inr detectedPaths, u1, w1) \<Rightarrow>
           (case probe_paths e detectedPaths u1 w1 of
              (Some path, u2, w2) \<Rightarrow> (Inr (Some path), u2\<lparr>detectedUpicPath := Some path\<rparr>, w2)
            | (None, u2, w2) \<Rightarrow> (Inr None, u2, w2))))"

text \<open>\<open>checkUPicAvailability\<close>, with the three fields of its result.\<close>

record availability =
  is_available :: bool
  at_path :: "string option"
  message :: string

definition notFoundMessage :: string where
  "notFoundMessage = ''uPic not found. Please install uPic or check the path in settings.''"

definition checkUPicAvailability ::
  "env \<Rightarrow> UPicUploader \<Rightarrow> world \<Rightarrow> (thrown + availability) \<times> UPicUploader \<times> world" where
  "checkUPicAvailability e u w =
     (let now = clock w
      in if lastCheckTime u > 0 \<and> now - lastCheckTime u < 5000
         then (case detectedUpicPath u of
                 None \<Rightarrow> (Inr \<lparr>is_available = False, at_path = None, message = notFoundMessage\<rparr>, u, w)
               | Some cachedPath \<Rightarrow>
                   if cachedPath = []
                   then (Inr \<lparr>is_available = False, at_path = None, message = notFoundMessage\<rparr>, u, w)
                   else (Inr \<lparr>is_available = True, at_path = Some cachedPath,
                               message = ''uPic is available at: '' @ cachedPath\<rparr>, u, w))
         else
          (case getAvailableUPicPath e u w of
             (Inl err, u1, w1) \<Rightarrow> (Inl err, u1, w1)
           | (Inr None, u1, w1) \<Rightarrow>
               (Inr \<lparr>is_available = False, at_path = None, message = notFoundMessage\<rparr>,
                u1\<lparr>lastCheckTime := now\<rparr>, w1)
           | (Inr (Some path), u1, w1) \<Rightarrow>
               if path = []
               then (Inr \<lparr>is_available = False, at_path = None, message = notFoundMessage\<rparr>,
                     u1\<lparr>lastCheckTime := now\<rparr>, w1)
               else (Inr \<lparr>is_available = True, at_path = Some path,
                           message = ''uPic is available at: '' @ path\<rparr>,
                     u1\<lparr>lastCheckTime := now\<rparr>, w1)))"

section \<open>Deduplication of pasted files\<close>

text \<open>
  \<open>processImageFile\<close> of the plugin class. The identifier of a file is the template
  \<open>name-size-lastModified\<close>. The whole body stands in one \<open>try\<close> whose \<open>finally\<close>
  deletes the identifier from \<open>processingFiles\<close>. The function is asynchronous: a call
  runs up to its first \<open>await\<close> and is resumed later. \<open>processImageFile_start\<close> is the
  part that runs at once: it ends the call (and so runs the \<open>finally\<close>) when the
  platform is not the desktop, when the identifier is already in the set, or when
  inserting the placeholder throws; otherwise the identifier is in the set and the call is
  suspended. \<open>processImageFile_finish\<close> is the rest of a suspended call: staging, upload
  and patching end normally or throw into the \<open>catch\<close>, and the \<open>finally\<close> runs.
\<close>

record File =
  file_name :: string
  file_size :: nat
  file_lastModified :: int

definition fileId :: "File \<Rightarrow> string" where
  "fileId file =
     file_name file @ ''-'' @ show_nat (file_size file) @ ''-'' @ show_int (file_lastModified file)"

datatype start_result = NotDesktop | AlreadyProcessing | PlaceholderThrew | InFlight

datatype body_outcome = Returned | Threw

definition processImageFile_start ::
  "bool \<Rightarrow> bool \<Rightarrow> File \<Rightarrow> string set \<Rightarrow> start_result \<times> string set" where
  "processImageFile_start desktop insertThrows file processingFiles =
     (if \<not> desktop then (NotDesktop, processingFiles - {fileId file})
      else if fileId file \<in> processingFiles
      then (AlreadyProcessing, processingFiles - {fileId file})
      else if insertThrows
      then (PlaceholderThrew, insert (fileId file) processingFiles - {fileId file})
      else (InFlight, insert (fileId file) processingFiles))"

definition processImageFile_finish :: "body_outcome \<Rightarrow> File \<Rightarrow> string set \<Rightarrow> string set" where
  "processImageFile_finish outcome file processingFiles =
     (case outcome of
        Returned \<Rightarrow> processingFiles - {fileId file}
      | Threw \<Rightarrow> processingFiles - {fileId file})"

section \<open>Regular expressions: the fragment the plugin uses\<close>

text \<open>
  The plugin builds its patterns as strings and compiles them with \<open>new RegExp(src, 'g')\<close>.
  The model covers the fragment these patterns lie in: pattern characters, identity
  escapes, \<open>\s\<close>, character classes without ranges, capturing groups, and the greedy
  quantifiers \<open>*\<close>, \<open>+\<close>, \<open>?\<close> on a single character or class. \<open>rx_compile\<close> reads
  a source string from left to right as the constructor does. It gives \<open>SyntaxError\<close>
  where the constructor throws (an unmatched parenthesis, nothing to repeat, a backslash
  at the end, an unterminated class or group) and \<open>Unsupported\<close> for a pattern outside the
  fragment, about which the model says nothing. The backslash cannot be written inside a
  string literal, so the sources below write \<open>bs\<close> for it.
\<close>

abbreviation bs :: char where
  "bs \<equiv> CHR 0x5C"

datatype class_item = CChar char | CSpace

datatype atom = AChar char | ASpace | AClass bool "class_item list"

datatype quant = QOne | QStar | QPlus | QOpt

datatype item = IAtom atom quant | IOpen | IClose

datatype rx_error = SyntaxError | Unsupported

abbreviation lit :: "char \<Rightarrow> item" where
  "lit c \<equiv> IAtom (AChar c) QOne"

datatype rx_mode = Top | Esc | Cls bool "class_item list" | ClsEsc bool "class_item list"

text \<open>The characters that \<open>escapeRegExp\<close> escapes: the class \<open>[.*+?^${}()|[\]\\]\<close>.\<close>

definition isSpecial :: "char \<Rightarrow> bool" where
  "isSpecial c = (c \<in> set ''.*+?^${}()|[]'' \<or> c = bs)"

text \<open>
  A quantifier applies to the item before it; the items read so far are kept newest first.
\<close>

fun rx_quantify :: "quant \<Rightarrow> item list \<Rightarrow> rx_error + item list" where
  "rx_quantify q [] = Inl SyntaxError"
| "rx_quantify q (IAtom a QOne # acc) = Inr (IAtom a q # acc)"
| "rx_quantify q (IAtom a QStar # acc) = (if q = QOpt then Inl Unsupported else Inl SyntaxError)"
| "rx_quantify q (IAtom a QPlus # acc) = (if q = QOpt then Inl Unsupported else Inl SyntaxError)"
| "rx_quantify q (IAtom a QOpt # acc) = (if q = QOpt then Inl Unsupported else Inl SyntaxError)"
| "rx_quantify q (IOpen # acc) = Inl SyntaxError"
| "rx_quantify q (IClose # acc) = Inl Unsupported"

fun rx_scan :: "rx_mode \<Rightarrow> nat \<Rightarrow> item list \<Rightarrow> string \<Rightarrow> rx_error + item list" where
  "rx_scan Top d acc [] = (if d = 0 then Inr (rev acc) else Inl SyntaxError)"
| "rx_scan Esc d acc [] = Inl SyntaxError"
| "rx_scan (Cls neg items) d acc [] = Inl SyntaxError"
| "rx_scan (ClsEsc neg items) d acc [] = Inl SyntaxError"
| "rx_scan Top d acc (c # cs) =
     (if c = bs then rx_scan Esc d acc cs
      else if c = CHR ''('' then
        (case cs of
           [] \<Rightarrow> Inl SyntaxError
         | q # _ \<Rightarrow> if q = CHR ''?'' then Inl Unsupported else rx_scan Top (Suc d) (IOpen # acc) cs)
      else if c = CHR '')'' then
        (if d = 0 then Inl SyntaxError else rx_scan Top (d - 1) (IClose # acc) cs)
      else if c = CHR ''['' then
        (case cs of
           [] \<Rightarrow> Inl SyntaxError
         | n # cs' \<Rightarrow> if n = CHR ''^'' then rx_scan (Cls True []) d acc cs'
                     else rx_scan (Cls False []) d acc cs)
      else if c = CHR ''*'' then
        (case rx_quantify QStar acc of Inl e \<Rightarrow> Inl e | Inr acc' \<Rightarrow> rx_scan Top d acc' cs)
      else if c = CHR ''+'' then
        (case rx_quantify QPlus acc of Inl e \<Rightarrow> Inl e | Inr acc' \<Rightarrow> rx_scan Top d acc' cs)
      else if c = CHR ''?'' then
        (case rx_quantify QOpt acc of Inl e \<Rightarrow> Inl e | Inr acc' \<Rightarrow> rx_scan Top d acc' cs)
      else if c \<in> set ''.^$|{}]'' then Inl Unsupported
      else rx_scan Top d (IAtom (AChar c) QOne # acc) cs)"
| "rx_scan Esc d acc (c # cs) =
     (if isSpecial c \<or> c = CHR ''/'' then rx_scan Top d (IAtom (AChar c) QOne # acc) cs
      else if c = CHR ''s'' then rx_scan Top d (IAtom ASpace QOne # acc) cs
      else Inl Unsupported)"
| "rx_scan (Cls neg items) d acc (c # cs) =
     (if c = CHR '']'' then rx_scan Top d (IAtom (AClass neg (rev items)) QOne # acc) cs
      else if c = bs then rx_scan (ClsEsc neg items) d acc cs
      else if c = CHR ''-'' then Inl Unsupported
      else rx_scan (Cls neg (CChar c # items)) d acc cs)"
| "rx_scan (ClsEsc neg items) d acc (c # cs) =
     (if isSpecial c \<or> c = CHR ''/'' \<or> c = CHR ''-'' then rx_scan (Cls neg (CChar c # items)) d acc cs
      else if c = CHR ''s'' then rx_scan (Cls neg (CSpace # items)) d acc cs
      else Inl Unsupported)"

definition rx_compile :: "string \<Rightarrow> rx_error + item list" where
  "rx_compile src = rx_scan Top 0 [] src"

text \<open>
  Matching at the start of a string, by backtracking in the order of the language: a
  greedy quantifier first takes a character and gives it back when the rest of the pattern
  fails. The result is the matched text with the places where groups open and close.
\<close>

fun class_item_ok :: "char \<Rightarrow> class_item \<Rightarrow> bool" where
  "class_item_ok c (CChar d) = (c = d)"
| "class_item_ok c CSpace = isWhiteSpace c"

fun atom_ok :: "atom \<Rightarrow> char \<Rightarrow> bool" where
  "atom_ok (AChar d) c = (c = d)"
| "atom_ok ASpace c = isWhiteSpace c"
| "atom_ok (AClass neg items) c = (list_ex (class_item_ok c) items \<noteq> neg)"

datatype mark = MChar char | MOpen | MClose

fun rx_match :: "item list \<Rightarrow> string \<Rightarrow> mark list option" where
  "rx_match [] s = Some []"
| "rx_match (IOpen # is) s = map_option (Cons MOpen) (rx_match is s)"
| "rx_match (IClose # is) s = map_option (Cons MClose) (rx_match is s)"
| "rx_match (IAtom a QOne # is) [] = None"
| "rx_match (IAtom a QOne # is) (c # cs) =
     (if atom_ok a c then map_option (Cons (MChar c)) (rx_match is cs) else None)"
| "rx_match (IAtom a QPlus # is) [] = None"
| "rx_match (IAtom a QPlus # is) (c # cs) =
     (if atom_ok a c then map_option (Cons (MChar c)) (rx_match (IAtom a QStar # is) cs) else None)"
| "rx_match (IAtom a QStar # is) [] = rx_match is []"
| "rx_match (IAtom a QStar # is) (c # cs) =
     (if atom_ok a c then
        (case rx_match (IAtom a QStar # is) cs of
           Some r \<Rightarrow> Some (MChar c # r)
         | None \<Rightarrow> rx_match is (c # cs))
      else rx_match is (c # cs))"
| "rx_match (IAtom a QOpt # is) [] = rx_match is []"
| "rx_match (IAtom a QOpt # is) (c # cs) =
     (if atom_ok a c then
        (case rx_match is cs of
           Some r \<Rightarrow> Some (MChar c # r)
         | None \<Rightarrow> rx_match is (c # cs))
      else rx_match is (c # cs))"

fun matched_text :: "mark list \<Rightarrow> string" where
  "matched_text [] = []"
| "matched_text (MChar c # ms) = c # matched_text ms"
| "matched_text (MOpen # ms) = matched_text ms"
| "matched_text (MClose # ms) = matched_text ms"

fun group_text :: "nat \<Rightarrow> mark list \<Rightarrow> string" where
  "group_text d [] = []"
| "group_text d (MChar c # ms) = c # group_text d ms"
| "group_text d (MOpen # ms) = group_text (Suc d) ms"
| "group_text d (MClose # ms) = (case d of 0 \<Rightarrow> [] | Suc d' \<Rightarrow> group_text d' ms)"

fun captures :: "mark list \<Rightarrow> string list" where
  "captures [] = []"
| "captures (MOpen # ms) = group_text 0 ms # captures ms"
| "captures (MChar c # ms) = captures ms"
| "captures (MClose # ms) = captures ms"

text \<open>
  The replacement text of \<open>String.prototype.replace\<close> (GetSubstitution): \<open>$$\<close> is a
  dollar, \<open>$&\<close> the match, \<open>$`\<close> the text before it, \<open>$'\<close> the text after it, and
  \<open>$n\<close> or \<open>$nn\<close> the capture of that number when the pattern has that many groups;
  two digits are read first and one digit when the two-digit number is too large. Any other
  dollar stands for itself.
\<close>

fun expand_template :: "string \<Rightarrow> string \<Rightarrow> string \<Rightarrow> string \<Rightarrow> string list \<Rightarrow> string" where
  "expand_template [] m before after caps = []"
| "expand_template [c] m before after caps = [c]"
| "expand_template (c # e # t) m before after caps =
     (if c \<noteq> CHR ''$'' then c # expand_template (e # t) m before after caps
      else if e = CHR ''$'' then CHR ''$'' # expand_template t m before after caps
      else if e = CHR ''&'' then m @ expand_template t m before after caps
      else if e = CHR 0x60 then before @ expand_template t m before after caps
      else if e = CHR 0x27 then after @ expand_template t m before after caps
      else if isDigit e then
        (case t of
           [] \<Rightarrow>
             (if 1 \<le> digit_value e \<and> digit_value e \<le> length caps
              then caps ! (digit_value e - 1) else [c, e])
         | f # t' \<Rightarrow>
             (if isDigit f \<and> 10 * digit_value e + digit_value f \<le> length caps
              then (if 1 \<le> 10 * digit_value e + digit_value f
                    then caps ! (10 * digit_value e + digit_value f - 1)
                           @ expand_template t' m before after caps
                    else c # e # f # expand_template t' m before after caps)
              else if 1 \<le> digit_value e \<and> digit_value e \<le> length caps
              then caps ! (digit_value e - 1) @ expand_template t m before after caps
              else c # e # expand_template t m before after caps))
      else c # expand_template (e # t) m before after caps)"

text \<open>
  \<open>s.replace(regex, template)\<close> for a regex with the flag \<open>g\<close>: the matches are found
  from left to right, each search starting where the last match ended, one place further
  after an empty match. \<open>pre\<close> is the text before the place of the search.
\<close>

function rx_replace_from :: "item list \<Rightarrow> string \<Rightarrow> string \<Rightarrow> string \<Rightarrow> string" where
  "rx_replace_from regex tmpl pre [] =
     (case rx_match regex [] of
        None \<Rightarrow> []
      | Some marks \<Rightarrow> expand_template tmpl (matched_text marks) pre [] (captures marks))"
| "rx_replace_from regex tmpl pre (c # cs) =
     (case rx_match regex (c # cs) of
        None \<Rightarrow> c # rx_replace_from regex tmpl (pre @ [c]) cs
      | Some marks \<Rightarrow>
          (let m = matched_text marks; after = drop (length m) (c # cs);
               r = expand_template tmpl m pre after (captures marks)
           in if m = [] then r @ c # rx_replace_from regex tmpl (pre @ [c]) cs
              else r @ rx_replace_from regex tmpl (pre @ m) after))"
  by pat_completeness auto
termination
  by (relation "measure (\<lambda>(regex, tmpl, pre, s). length s)") auto

declare rx_replace_from.simps [simp del]

definition rx_replace_all :: "item list \<Rightarrow> string \<Rightarrow> string \<Rightarrow> string" where
  "rx_replace_all regex tmpl s = rx_replace_from regex tmpl [] s"

text \<open>
  \<open>s.replace(pattern, template)\<close> for a string pattern: the first occurrence only; the
  template is expanded as above, with no captures.
\<close>

fun str_replace_from :: "string \<Rightarrow> string \<Rightarrow> string \<Rightarrow> string \<Rightarrow> string" where
  "str_replace_from p tmpl pre [] = (if p = [] then expand_template tmpl [] pre [] [] else [])"
| "str_replace_from p tmpl pre (c # cs) =
     (if startsWith (c # cs) p
      then expand_template tmpl p pre (drop (length p) (c # cs)) [] @ drop (length p) (c # cs)
      else c # str_replace_from p tmpl (pre @ [c]) cs)"

definition str_replace :: "string \<Rightarrow> string \<Rightarrow> string \<Rightarrow> string" where
  "str_replace s p tmpl = str_replace_from p tmpl [] s"

section \<open>Uploading a file\<close>

text \<open>
  \<open>parseUploadOutput\<close>. The literal \<open>/(https?:\/\/[^\s]+)/g\<close> is \<open>urlRegex\<close>, the
  compiled form of its source \<open>urlRegex_source\<close>. \<open>output.match(urlRegex)\<close> gives all
  matches from left to right, or null; its first element is the match that \<open>rx_first\<close>
  finds.
\<close>

definition urlRegex_source :: string where
  "urlRegex_source = ''(https?:'' @ bs # ''/'' @ bs # ''/[^'' @ bs # ''s]+)''"

definition urlRegex :: "item list" where
  "urlRegex =
     [IOpen, lit CHR ''h'', lit CHR ''t'', lit CHR ''t'', lit CHR ''p'', IAtom (AChar CHR ''s'') QOpt,
      lit CHR '':'', lit CHR ''/'', lit CHR ''/'', IAtom (AClass True [CSpace]) QPlus, IClose]"

fun rx_first :: "item list \<Rightarrow> string \<Rightarrow> string option" where
  "rx_first regex [] = map_option matched_text (rx_match regex [])"
| "rx_first regex (c # cs) =
     (case rx_match regex (c # cs) of
        Some marks \<Rightarrow> Some (matched_text marks)
      | None \<Rightarrow> rx_first regex cs)"

definition parseUploadOutput :: "string \<Rightarrow> string option" where
  "parseUploadOutput output =
     (if output = [] \<or> trim output = [] then None
      else
       (let lines = split_on CHR 0x0A (trim output)
        in case find (\<lambda>line. startsWith (trim line) ''http://'' \<or> startsWith (trim line) ''https://'')
                  lines of
             Some line \<Rightarrow> Some (trim line)
           | None \<Rightarrow> rx_first urlRegex output))"

text \<open>
  \<open>uploadFile\<close>. \<open>uploadFile_try\<close> is the \<open>try\<close> block, whose result is a value or
  what was thrown; \<open>uploadFile_catch\<close> is the \<open>catch\<close> clause. The result of
  \<open>uploadFile\<close> itself is again a value or what the call throws to its caller.
\<close>

record UploadResult =
  success :: bool
  url :: "string option"
  error :: "string option"
  originalPath :: string

definition notify :: "string \<Rightarrow> world \<Rightarrow> world" where
  "notify msg w = w\<lparr>notices := notices w @ [msg]\<rparr>"

definition uploadCommand :: "string \<Rightarrow> string \<Rightarrow> string" where
  "uploadCommand availableUpicPath filePath =
     (if includes_str availableUpicPath '' ''
      then dq # availableUpicPath @ dq # '' -u '' @ dq # filePath @ dq # '' -o url''
      else availableUpicPath @ '' -u '' @ dq # filePath @ dq # '' -o url'')"

definition notAvailableMessage :: "string \<Rightarrow> string" where
  "notAvailableMessage msg =
     ''uPic is not available. '' @ (if msg \<noteq> [] then msg else ''Please check the path in settings.'')
       @ [CHR 0x0A, CHR 0x0A] @ ''Troubleshooting:'' @ CHR 0x0A # ''1. Make sure uPic is installed''
       @ CHR 0x0A # ''2. Check if uPic path is correct in settings''
       @ CHR 0x0A # ''3. Try running uPic manually to verify it works''"

definition uploadFile_try ::
  "env \<Rightarrow> string \<Rightarrow> UPicUploader \<Rightarrow> world \<Rightarrow> (thrown + UploadResult) \<times> UPicUploader \<times> world" where
  "uploadFile_try e filePath u w =
     (case getAvailableUPicPath e u w of
        (Inl err, u1, w1) \<Rightarrow> (Inl err, u1, w1)
      | (Inr found, u1, w1) \<Rightarrow>
         (if found = None \<or> found = Some []
          then (case checkUPicAvailability e u1 w1 of
                  (Inl err, u2, w2) \<Rightarrow> (Inl err, u2, w2)
                | (Inr availabilityResult, u2, w2) \<Rightarrow>
                    (Inr \<lparr>success = False, url = None,
                          error = Some (notAvailableMessage (message availabilityResult)),
                          originalPath = filePath\<rparr>, u2, w2))
          else
           (let availableUpicPath = (case found of None \<Rightarrow> [] | Some path \<Rightarrow> path);
                w2 = (if showNotifications (settings u1)
                      then notify ''Uploading image via uPic...'' w1 else w1)
            in case execAsync e (uploadCommand availableUpicPath filePath)
                      (uploadTimeout (settings u1) * 1000) w2 of
                 (Inl err, w3) \<Rightarrow> (Inl err, u1, w3)
               | (Inr (stdout, stderr), w3) \<Rightarrow>
                   (case parseUploadOutput stdout of
                      None \<Rightarrow>
                        (Inr \<lparr>success = False, url = None,
                              error = Some ''Failed to parse upload URL from uPic output'',
                              originalPath = filePath\<rparr>, u1, w3)
                    | Some parsed \<Rightarrow>
                        if parsed = []
                        then (Inr \<lparr>success = False, url = None,
                                    error = Some ''Failed to parse upload URL from uPic output'',
                                    originalPath = filePath\<rparr>, u1, w3)
                        else (Inr \<lparr>success = True, url = Some parsed, error = None,
                                    originalPath = filePath\<rparr>,
                              u1,
                              if showNotifications (settings u1)
                              then notify ''Image uploaded successfully!'' w3 else w3)))))"

definition errorMessageOf :: "thrown \<Rightarrow> string" where
  "errorMessageOf err =
     (case err of
        NonError \<Rightarrow> ''Unknown upload error''
      | Error msg \<Rightarrow>
          if includes_str msg ''timeout''
          then ''Upload timeout - please check your network connection''
          else if includes_str msg ''ENOENT''
          then ''uPic application not found - please check the path in settings''
          else msg)"

definition uploadFile_catch ::
  "string \<Rightarrow> thrown \<Rightarrow> UPicUploader \<Rightarrow> world \<Rightarrow> (thrown + UploadResult) \<times> UPicUploader \<times> world" where
  "uploadFile_catch filePath err u w =
     (let errorMessage = errorMessageOf err
      in (Inr \<lparr>success = False, url = None, error = Some errorMessage, originalPath = filePath\<rparr>,
          u,
          if showNotifications (settings u) then notify (''Upload failed: '' @ errorMessage) w else w))"

definition uploadFile ::
  "env \<Rightarrow> string \<Rightarrow> UPicUploader \<Rightarrow> world \<Rightarrow> (thrown + UploadResult) \<times> UPicUploader \<times> world" where
  "uploadFile e filePath u w =
     (if \<not> isDesktop e
      then (Inr \<lparr>success = False, url = None,
                  error = Some ''File upload is only available on desktop platforms'',
                  originalPath = filePath\<rparr>, u, w)
      else
       (case uploadFile_try e filePath u w of
          (Inl err, u1, w1) \<Rightarrow> uploadFile_catch filePath err u1 w1
        | (Inr result, u1, w1) \<Rightarrow> (Inr result, u1, w1)))"

section \<open>Staging a file\<close>

text \<open>
  \<open>createTempFile\<close>. The temporary directory holds \<open>files\<close>, from paths to contents;
  \<open>fs.access\<close> succeeds on the paths that exist in it. \<open>writeFile\<close> stores the bytes, or
  throws what \<open>write_error\<close> says. \<open>now\<close> is the value of \<open>Date.now()\<close>.
\<close>

definition createTempFile ::
  "env \<Rightarrow> (string \<Rightarrow> thrown option) \<Rightarrow> File \<Rightarrow> nat list \<Rightarrow> (string \<rightharpoonup> nat list) \<Rightarrow> int
     \<Rightarrow> thrown + string \<times> (string \<rightharpoonup> nat list)" where
  "createTempFile e write_error file bytes files now =
     (if \<not> isDesktop e then Inl (Error ''Temporary file creation is only available on desktop'')
      else
       (let tempDir = tmpdir e;
            fileName = file_name file;
            tempFilePath = path_join e tempDir fileName;
            tempFilePath' =
              (if files tempFilePath \<noteq> None
               then (let nameWithoutExt = substring fileName 0 (lastIndexOf fileName CHR ''.'');
                         extension = substring_from fileName (lastIndexOf fileName CHR ''.'');
                         fileName' = nameWithoutExt @ ''_'' @ show_int now @ extension
                     in path_join e tempDir fileName')
               else tempFilePath)
        in case write_error tempFilePath' of
             Some err \<Rightarrow> Inl err
           | None \<Rightarrow> Inr (tempFilePath', files(tempFilePath' \<mapsto> bytes))))"

section \<open>Rewriting the reference in the document\<close>

text \<open>
  The editor of the host: \<open>getValue()\<close> reads \<open>content\<close>, \<open>setValue(v)\<close> replaces it.
  \<open>setValueCalls\<close> counts the calls of \<open>setValue\<close>.
\<close>

record editor =
  content :: string
  setValueCalls :: nat

definition setValue :: "string \<Rightarrow> editor \<Rightarrow> editor" where
  "setValue v ed = ed\<lparr>content := v, setValueCalls := Suc (setValueCalls ed)\<rparr>"

text \<open>\<open>escapeRegExp\<close>: \<open>string.replace(/[.*+?^${}()|[\]\\]/g, '\\$&')\<close>.\<close>

definition escapeRegExp :: "string \<Rightarrow> string" where
  "escapeRegExp s = concat (map (\<lambda>c. if isSpecial c then [bs, c] else [c]) s)"

text \<open>
  \<open>fileName.replace(/\.[^/.]+$/, '')\<close> removes the last extension: the match starts at a
  dot that is followed, up to the end of the string, by one or more characters other than
  a slash and a dot, so it starts at the last dot of the string or nowhere.
\<close>

definition stripExtension :: "string \<Rightarrow> string" where
  "stripExtension s =
     (let i = lastIndexOf s CHR ''.''
      in if i < 0 then s
         else (let ext = drop (nat i + 1) s
               in if ext \<noteq> [] \<and> list_all (\<lambda>c. c \<noteq> CHR ''/'') ext then take (nat i) s else s))"

text \<open>\<open>generatePathVariants\<close>: a \<open>Set\<close> keeps the order of first insertion.\<close>

definition set_add :: "string list \<Rightarrow> string \<Rightarrow> string list" where
  "set_add variants v = (if v \<in> set variants then variants else variants @ [v])"

definition generatePathVariants :: "string \<Rightarrow> string \<Rightarrow> string list" where
  "generatePathVariants fileName filePath =
     (let commonFolders = [''attachments'', ''assets'', ''images'', ''files''];
          v1 = foldl set_add [] [fileName, filePath, ''./'' @ fileName, ''./'' @ filePath];
          v2 = foldl set_add v1
                 (concat (map (\<lambda>folder. [folder @ ''/'' @ fileName, ''./'' @ folder @ ''/'' @ fileName])
                    commonFolders))
      in if includes_str filePath ''/''
         then (let pathParts = split_on CHR ''/'' filePath
               in foldl set_add v2
                    (concat (map (\<lambda>i. let partialPath = join_with ''/'' (drop i pathParts)
                                       in [partialPath, ''./'' @ partialPath])
                       [1..<length pathParts])))
         else v2)"

text \<open>
  The sources of the regular expressions, as the template literals build them:
  \<^item> \<open>!\[([^\]]*)\]\(${escapedPath}\)\<close>, any alternative text before the given path;
  \<^item> \<open>!\[([^\]]*)\]\([^\)]*${escapedFileName}[^\)]*)\<close>, meant for any path that holds
    the file name;
  \<^item> \<open>!\[\[${escapedBracketContent}\]\]\<close>, the embed syntax of the host;
  \<^item> \<open>!\[([^\]]*)\]\([^\)]*\b${escapedFileName}\b[^\)]*)\<close>, of the earlier version only.
\<close>

definition alt_text_source :: "string \<Rightarrow> string" where
  "alt_text_source escapedPath =
     ''!'' @ bs # ''[([^'' @ bs # '']]*)'' @ bs # '']'' @ bs # ''('' @ escapedPath @ bs # '')''"

definition path_contains_source :: "string \<Rightarrow> string" where
  "path_contains_source escapedFileName =
     ''!'' @ bs # ''[([^'' @ bs # '']]*)'' @ bs # '']'' @ bs # ''([^'' @ bs # '')]*''
       @ escapedFileName @ ''[^'' @ bs # '')]*)''"

definition double_bracket_source :: "string \<Rightarrow> string" where
  "double_bracket_source escapedBracketContent =
     ''!'' @ bs # ''['' @ bs # ''['' @ escapedBracketContent @ bs # '']'' @ bs # '']''"

definition word_bounded_source :: "string \<Rightarrow> string" where
  "word_bounded_source escapedFileName =
     ''!'' @ bs # ''[([^'' @ bs # '']]*)'' @ bs # '']'' @ bs # ''([^'' @ bs # '')]*'' @ bs # ''b''
       @ escapedFileName @ bs # ''b[^'' @ bs # '')]*)''"

text \<open>
  \<open>generateReplacementPatterns\<close>. The field \<open>description\<close> of a pattern is only logged
  and is left out.
\<close>

record replacement_pattern =
  pattern :: string
  replacement :: string
  isRegex :: bool

definition generateReplacementPatterns :: "string \<Rightarrow> string \<Rightarrow> string \<Rightarrow> replacement_pattern list" where
  "generateReplacementPatterns pathVariant fileName newUrl =
     (let escapedPath = escapeRegExp pathVariant;
          escapedFileName = escapeRegExp fileName;
          fileNameWithoutExt = stripExtension fileName
      in if startsWith pathVariant ''![['' \<and> endsWith pathVariant '']]''
         then (let bracketContent = take (length pathVariant - 5) (drop 3 pathVariant);
                   escapedBracketContent = escapeRegExp bracketContent
               in [\<lparr>pattern = pathVariant,
                     replacement = ''!['' @ fileNameWithoutExt @ '']('' @ newUrl @ '')'',
                     isRegex = False\<rparr>,
                   \<lparr>pattern = double_bracket_source escapedBracketContent,
                     replacement = ''!['' @ fileNameWithoutExt @ '']('' @ newUrl @ '')'',
                     isRegex = True\<rparr>])
         else [\<lparr>pattern = ''!['' @ fileName @ '']('' @ pathVariant @ '')'',
                 replacement = ''!['' @ fileName @ '']('' @ newUrl @ '')'',
                 isRegex = False\<rparr>,
               \<lparr>pattern = alt_text_source escapedPath,
                 replacement = ''!['' @ fileName @ '']('' @ newUrl @ '')'',
                 isRegex = True\<rparr>]
              @ (if pathVariant \<noteq> fileName
                 then [\<lparr>pattern = path_contains_source escapedFileName,
                         replacement = ''!['' @ fileName @ '']('' @ newUrl @ '')'',
                         isRegex = True\<rparr>]
                 else []))"

text \<open>
  \<open>replaceImageLinkInDocument\<close>, the version over path variants. One pattern is tried on
  the text: \<open>Hit\<close> with the new text when it changes it, \<open>Miss\<close> when it does not,
  \<open>Throws\<close> when \<open>new RegExp\<close> throws (the \<open>catch\<close> of the function then returns
  false), \<open>OutsideModel\<close> when the pattern is outside the modelled fragment. The loops stop
  at the first result that is not \<open>Miss\<close>; the text is written back only after a hit.
  The function gives \<open>None\<close> only for \<open>OutsideModel\<close>.
\<close>

datatype step = Hit string | Miss | Throws | OutsideModel

definition apply_pattern :: "replacement_pattern \<Rightarrow> string \<Rightarrow> step" where
  "apply_pattern p newContent =
     (if isRegex p then
        (case rx_compile (pattern p) of
           Inl SyntaxError \<Rightarrow> Throws
         | Inl Unsupported \<Rightarrow> OutsideModel
         | Inr regex \<Rightarrow>
             (let result = rx_replace_all regex (replacement p) newContent
              in if result \<noteq> newContent then Hit result else Miss))
      else if includes_str newContent (pattern p) then
        (case rx_compile (escapeRegExp (pattern p)) of
           Inl SyntaxError \<Rightarrow> Throws
         | Inl Unsupported \<Rightarrow> OutsideModel
         | Inr regex \<Rightarrow> Hit (rx_replace_all regex (replacement p) newContent))
      else Miss)"

fun patterns_loop :: "replacement_pattern list \<Rightarrow> string \<Rightarrow> step" where
  "patterns_loop [] newContent = Miss"
| "patterns_loop (p # ps) newContent =
     (case apply_pattern p newContent of
        Miss \<Rightarrow> patterns_loop ps newContent
      | r \<Rightarrow> r)"

fun variants_loop :: "string list \<Rightarrow> string \<Rightarrow> string \<Rightarrow> string \<Rightarrow> step" where
  "variants_loop [] fileName newUrl newContent = Miss"
| "variants_loop (variant # vs) fileName newUrl newContent =
     (case patterns_loop (generateReplacementPatterns variant fileName newUrl) newContent of
        Miss \<Rightarrow> variants_loop vs fileName newUrl newContent
      | r \<Rightarrow> r)"

definition replaceImageLinkInDocument ::
  "editor \<Rightarrow> string \<Rightarrow> string \<Rightarrow> string \<Rightarrow> (bool \<times> editor) option" where
  "replaceImageLinkInDocument ed oldPath newUrl fileName =
     (case variants_loop (generatePathVariants fileName oldPath) fileName newUrl (content ed) of
        Hit newContent \<Rightarrow> Some (True, setValue newContent ed)
      | Miss \<Rightarrow> Some (False, ed)
      | Throws \<Rightarrow> Some (False, ed)
      | OutsideModel \<Rightarrow> None)"

text \<open>
  The earlier version of \<open>replaceImageLinkInDocument\<close>, with four methods in a row: the
  exact reference as a string pattern, then three regular expressions, each compiled when
  its method is reached. The fourth holds the assertion \<open>\b\<close>.
\<close>

definition replaceImageLinkInDocument_earlier ::
  "editor \<Rightarrow> string \<Rightarrow> string \<Rightarrow> string \<Rightarrow> (bool \<times> editor) option" where
  "replaceImageLinkInDocument_earlier ed oldPath newUrl fileName =
     (let content0 = content ed;
          exactMatch = ''!['' @ fileName @ '']('' @ oldPath @ '')'';
          tmpl = ''!['' @ fileName @ '']('' @ newUrl @ '')''
      in if includes_str content0 exactMatch
         then Some (True, setValue (str_replace content0 exactMatch tmpl) ed)
         else
          (case rx_compile (path_contains_source (escapeRegExp fileName)) of
             Inl SyntaxError \<Rightarrow> Some (False, ed)
           | Inl Unsupported \<Rightarrow> None
           | Inr fileNameRegex \<Rightarrow>
              (let flexibleContent = rx_replace_all fileNameRegex tmpl content0
               in if flexibleContent \<noteq> content0 then Some (True, setValue flexibleContent ed)
                  else
                   (case rx_compile (alt_text_source (escapeRegExp oldPath)) of
                      Inl SyntaxError \<Rightarrow> Some (False, ed)
                    | Inl Unsupported \<Rightarrow> None
                    | Inr pathRegex \<Rightarrow>
                       (let pathContent = rx_replace_all pathRegex tmpl content0
                        in if pathContent \<noteq> content0 then Some (True, setValue pathContent ed)
                           else
                            (case rx_compile (word_bounded_source (escapeRegExp fileName)) of
                               Inl SyntaxError \<Rightarrow> Some (False, ed)
                             | Inl Unsupported \<Rightarrow> None
                             | Inr looseRegex \<Rightarrow>
                                (let looseContent = rx_replace_all looseRegex tmpl content0
                                 in if looseContent \<noteq> content0
                                    then Some (True, setValue looseContent ed)
                                    else Some (False, ed))))))))"

text \<open>
  A pattern finds an occurrence in a text when, as a string, it occurs in it, or, as a
  regular expression, it compiles and matches at some place of the text.
\<close>

fun rx_search :: "item list \<Rightarrow> string \<Rightarrow> bool" where
  "rx_search regex [] = (rx_match regex [] \<noteq> None)"
| "rx_search regex (c # cs) = (rx_match regex (c # cs) \<noteq> None \<or> rx_search regex cs)"

definition pattern_finds :: "replacement_pattern \<Rightarrow> string \<Rightarrow> bool" where
  "pattern_finds p text =
     (if isRegex p
      then (case rx_compile (pattern p) of Inl e \<Rightarrow> False | Inr regex \<Rightarrow> rx_search regex text)
      else includes_str text (pattern p))"

section \<open>Notions used to state the results\<close>




text \<open>A path has a positive entry in the cache that a read at the time of \<open>w\<close> returns.\<close>

definition live_positive :: "string \<Rightarrow> UPicUploader \<Rightarrow> world \<Rightarrow> bool" where
  "live_positive path u w =
     (case availabilityCache u path of
        None \<Rightarrow> False
      | Some entry \<Rightarrow> available entry \<and> clock w - timestamp entry \<le> cacheTimeout * 2)"

text \<open>
  The extraction of the address as the specification words it, to be compared with
  \<open>parseUploadOutput\<close>: the first line of the output whose trimmed text begins with
  \<open>http://\<close> or \<open>https://\<close>; failing that, the first place in the whole output where one
  of the two schemes is followed by characters other than white space, at least one, with
  all of them up to the next white space.
\<close>

definition startsWithScheme :: "string \<Rightarrow> bool" where
  "startsWithScheme s = (startsWith s ''http://'' \<or> startsWith s ''https://'')"

definition spec_first_url_line :: "string \<Rightarrow> string option" where
  "spec_first_url_line output =
     map_option trim (find (\<lambda>line. startsWithScheme (trim line)) (split_on CHR 0x0A output))"

text \<open>The first line of a list that so begins, trimmed, as the loop over the lines finds it.\<close>

definition url_line :: "string list \<Rightarrow> string option" where
  "url_line ls = map_option trim (find (\<lambda>line. startsWithScheme (trim line)) ls)"

text \<open>An address embedded at the start of a string, and the leftmost one in a string.\<close>

definition spec_url_at :: "string \<Rightarrow> string option" where
  "spec_url_at s =
     (if startsWith s ''https://''
      then (let rest = takeWhile (\<lambda>c. \<not> isWhiteSpace c) (drop 8 s)
            in if rest = [] then None else Some (''https://'' @ rest))
      else if startsWith s ''http://''
      then (let rest = takeWhile (\<lambda>c. \<not> isWhiteSpace c) (drop 7 s)
            in if rest = [] then None else Some (''http://'' @ rest))
      else None)"

fun spec_first_embedded_url :: "string \<Rightarrow> string option" where
  "spec_first_embedded_url [] = None"
| "spec_first_embedded_url (c # cs) =
     (case spec_url_at (c # cs) of Some m \<Rightarrow> Some m | None \<Rightarrow> spec_first_embedded_url cs)"

definition spec_upload_url :: "string \<Rightarrow> string option" where
  "spec_upload_url output =
     (case spec_first_url_line output of
        Some u \<Rightarrow> Some u
      | None \<Rightarrow> spec_first_embedded_url output)"

text \<open>
  Concrete inputs for the examples: an environment on the desktop in which every command
  gives the outcome \<open>r\<close> at once, no file exists, and \<open>path.join\<close> puts a slash between
  its arguments (as it does for the simple names used here); the same where the process
  list counts one process of the tool, and where it counts none; a world at time 1000;
  an uploader that has found its path, and one that has found nothing yet.
\<close>

definition plain_env :: "(string \<Rightarrow> int \<Rightarrow> thrown + string \<times> string) \<Rightarrow> env" where
  "plain_env r =
     \<lparr>isDesktop = True, win32 = False, run = r, elapsed = (\<lambda>c. 0), existsSync = (\<lambda>p. False),
      statSync = (\<lambda>p. None), accessSync = (\<lambda>p. False), homedir = ''/home/u'', tmpdir = ''/tmp'',
      userInfo = Inr ''u'', PATH = None, path_join = (\<lambda>d f. d @ ''/'' @ f)\<rparr>"

definition running_env :: env where
  "running_env = plain_env (\<lambda>c t. Inr ([CHR ''1'', CHR 0x0A], []))"

definition idle_env :: env where
  "idle_env = plain_env (\<lambda>c t. Inr ([CHR ''0'', CHR 0x0A], []))"

definition world0 :: world where
  "world0 = \<lparr>clock = 1000, spawned = [], notices = [], probes = []\<rparr>"

definition example_uploader :: "string \<Rightarrow> bool \<Rightarrow> int \<Rightarrow> UPicUploader" where
  "example_uploader p a t =
     \<lparr>settings = \<lparr>upicPath = [], uploadTimeout = 30, showNotifications = False\<rparr>,
      detectedUpicPath = None, lastCheckTime = 0,
      availabilityCache = [p \<mapsto> \<lparr>available = a, timestamp = t\<rparr>]\<rparr>"

definition found_uploader :: UPicUploader where
  "found_uploader =
     \<lparr>settings = \<lparr>upicPath = [], uploadTimeout = 30, showNotifications = False\<rparr>,
      detectedUpicPath = Some ''upic'', lastCheckTime = 0, availabilityCache = Map.empty\<rparr>"

definition fresh_uploader :: UPicUploader where
  "fresh_uploader =
     \<lparr>settings = \<lparr>upicPath = [], uploadTimeout = 30, showNotifications = False\<rparr>,
      detectedUpicPath = None, lastCheckTime = 0, availabilityCache = Map.empty\<rparr>"

definition paste_png :: File where
  "paste_png = \<lparr>file_name = ''image.png'', file_size = 5, file_lastModified = 7\<rparr>"

section \<open>Results about the cache and the deduplication\<close>

lemma show_nat_digit: "n < 10 \<Longrightarrow> show_nat n = [digit_char n]"
  by (simp add: show_nat.simps)




text \<open>
  C1. The claim fails on the code at three pastes of one file: the first call is in
  flight, the second is rejected, but its \<open>return\<close> stands inside the \<open>try\<close>, so the
  \<open>finally\<close> of the rejected call deletes the identifier that the first call inserted;
  the third call is accepted while the first is still in flight.
\<close>

theorem third_paste_accepted_while_first_in_flight:
  "fileId paste_png = ''image.png-5-7''
   \<and> processImageFile_start True False paste_png {} = (InFlight, {''image.png-5-7''})
   \<and> processImageFile_start True False paste_png {''image.png-5-7''} = (AlreadyProcessing, {})
   \<and> processImageFile_start True False paste_png
        (snd (processImageFile_start True False paste_png
           (snd (processImageFile_start True False paste_png {}))))
       = (InFlight, {''image.png-5-7''})"
proof -
  have id: "fileId paste_png = ''image.png-5-7''"
    by (simp add: fileId_def paste_png_def show_int_def show_nat_digit digit_char_def)
  show ?thesis
    unfolding processImageFile_start_def id by simp
qed

section \<open>Results about the patterns and the rewriting\<close>

lemma startsWith_iff: "startsWith s p \<longleftrightarrow> (\<exists>r. s = p @ r)"
  by (induction s p rule: startsWith.induct) auto

lemma startsWith_append [simp]: "startsWith (p @ r) p"
  by (simp add: startsWith_iff)

lemma includes_str_iff: "includes_str s p \<longleftrightarrow> (\<exists>a b. s = a @ p @ b)"
proof (induction s)
  case Nil
  then show ?case by auto
next
  case (Cons c cs)
  show ?case
  proof
    assume "includes_str (c # cs) p"
    then consider "startsWith (c # cs) p" | "includes_str cs p" by auto
    then show "\<exists>a b. c # cs = a @ p @ b"
    proof cases
      case 1
      then obtain r where "c # cs = p @ r" by (auto simp: startsWith_iff)
      then have "c # cs = [] @ p @ r" by simp
      then show ?thesis by blast
    next
      case 2
      then obtain a b where "cs = a @ p @ b" using Cons.IH by auto
      then have "c # cs = (c # a) @ p @ b" by simp
      then show ?thesis by blast
    qed
  next
    assume "\<exists>a b. c # cs = a @ p @ b"
    then obtain a b where ab: "c # cs = a @ p @ b" by auto
    show "includes_str (c # cs) p"
    proof (cases a)
      case Nil
      then have "startsWith (c # cs) p" using ab by (auto simp: startsWith_iff)
      then show ?thesis by simp
    next
      case (Cons x a')
      then have "cs = a' @ p @ b" using ab by simp
      then show ?thesis using Cons.IH by auto
    qed
  qed
qed

lemma isSpecial_cases:
  "\<not> isSpecial c \<Longrightarrow> c \<noteq> bs \<and> c \<noteq> CHR ''('' \<and> c \<noteq> CHR '')'' \<and> c \<noteq> CHR ''['' \<and> c \<noteq> CHR ''*''
     \<and> c \<noteq> CHR ''+'' \<and> c \<noteq> CHR ''?'' \<and> c \<notin> set ''.^$|{}]''"
  by (auto simp: isSpecial_def)

lemma escapeRegExp_Nil [simp]: "escapeRegExp [] = []"
  by (simp add: escapeRegExp_def)

lemma escapeRegExp_Cons:
  "escapeRegExp (c # s) = (if isSpecial c then bs # c # escapeRegExp s else c # escapeRegExp s)"
  by (simp add: escapeRegExp_def)

lemma rx_scan_escaped:
  "rx_scan Top d acc (escapeRegExp s @ rest) = rx_scan Top d (rev (map lit s) @ acc) rest"
proof (induction s arbitrary: acc)
  case Nil
  then show ?case by simp
next
  case (Cons c s)
  show ?case
  proof (cases "isSpecial c")
    case True
    then show ?thesis using Cons.IH [of "lit c # acc"] by (simp add: escapeRegExp_Cons)
  next
    case False
    then show ?thesis using Cons.IH [of "lit c # acc"] isSpecial_cases [OF False]
      by (simp add: escapeRegExp_Cons)
  qed
qed

lemma rx_compile_escaped: "rx_compile (escapeRegExp p) = Inr (map lit p)"
  using rx_scan_escaped [of 0 "[]" p "[]"] by (simp add: rx_compile_def)

lemma rx_compile_alt_text:
  "rx_compile (alt_text_source (escapeRegExp path))
   = Inr ([lit CHR ''!'', lit CHR ''['', IOpen, IAtom (AClass True [CChar CHR '']'']) QStar, IClose,
           lit CHR '']'', lit CHR ''(''] @ map lit path @ [lit CHR '')''])"
  by (simp add: alt_text_source_def rx_compile_def rx_scan_escaped isSpecial_def)

lemma rx_compile_path_contains:
  "rx_compile (path_contains_source (escapeRegExp fileName)) = Inl SyntaxError"
  by (simp add: path_contains_source_def rx_compile_def rx_scan_escaped isSpecial_def)

lemma rx_compile_double_bracket:
  "rx_compile (double_bracket_source (escapeRegExp x))
   = Inr ([lit CHR ''!'', lit CHR ''['', lit CHR ''[''] @ map lit x @ [lit CHR '']'', lit CHR '']''])"
  by (simp add: double_bracket_source_def rx_compile_def rx_scan_escaped isSpecial_def)

lemma rx_match_literal:
  "rx_match (map lit p @ rest) s =
     (if startsWith s p then map_option ((@) (map MChar p)) (rx_match rest (drop (length p) s)) else None)"
proof (induction p arbitrary: s)
  case Nil
  then show ?case by (cases "rx_match rest s") auto
next
  case (Cons c p)
  show ?case
  proof (cases s)
    case Nil
    then show ?thesis by simp
  next
    case (Cons x xs)
    then show ?thesis using Cons.IH [of xs] by (auto simp: option.map_comp comp_def)
  qed
qed

lemma matched_text_MChar [simp]: "matched_text (map MChar p) = p"
  by (induction p) auto

lemma captures_MChar [simp]: "captures (map MChar p) = []"
  by (induction p) auto

lemma expand_template_plain:
  "CHR ''$'' \<notin> set t \<Longrightarrow> expand_template t m before after caps = t"
  by (induction t m before after caps rule: expand_template.induct) auto

lemma rx_search_none_replace:
  "\<not> rx_search regex s \<Longrightarrow> rx_replace_from regex tmpl pre s = s"
  by (induction s arbitrary: pre) (auto simp: rx_replace_from.simps)

lemma generated_regex_compiles:
  assumes "p \<in> set (generateReplacementPatterns variant fileName newUrl)" and "isRegex p"
  shows "rx_compile (pattern p) \<noteq> Inl Unsupported"
  using assms
  by (auto simp: generateReplacementPatterns_def Let_def rx_compile_alt_text
        rx_compile_path_contains rx_compile_double_bracket split: if_splits)

lemma apply_pattern_no_find:
  assumes "p \<in> set (generateReplacementPatterns variant fileName newUrl)"
    and "\<not> pattern_finds p text"
  shows "apply_pattern p text = Miss \<or> apply_pattern p text = Throws"
proof (cases "isRegex p")
  case True
  show ?thesis
  proof (cases "rx_compile (pattern p)")
    case (Inl e)
    then show ?thesis using True generated_regex_compiles [OF assms(1) True]
      by (cases e) (auto simp: apply_pattern_def)
  next
    case (Inr regex)
    then have "\<not> rx_search regex text" using assms(2) True by (simp add: pattern_finds_def)
    then show ?thesis using True Inr
      by (simp add: apply_pattern_def rx_replace_all_def rx_search_none_replace)
  qed
next
  case False
  then show ?thesis using assms(2) by (simp add: apply_pattern_def pattern_finds_def)
qed

lemma patterns_loop_no_find:
  assumes "\<forall>p \<in> set ps. apply_pattern p text = Miss \<or> apply_pattern p text = Throws"
  shows "patterns_loop ps text = Miss \<or> patterns_loop ps text = Throws"
  using assms by (induction ps) (auto split: step.splits)

lemma variants_loop_no_find:
  assumes "\<forall>v \<in> set vs. \<forall>p \<in> set (generateReplacementPatterns v fileName newUrl).
             \<not> pattern_finds p text"
  shows "variants_loop vs fileName newUrl text = Miss \<or> variants_loop vs fileName newUrl text = Throws"
  using assms
proof (induction vs)
  case Nil
  then show ?case by simp
next
  case (Cons v vs)
  have "patterns_loop (generateReplacementPatterns v fileName newUrl) text = Miss
        \<or> patterns_loop (generateReplacementPatterns v fileName newUrl) text = Throws"
    using Cons.prems apply_pattern_no_find [of _ v fileName newUrl "text"]
    by (intro patterns_loop_no_find) (meson list.set_intros)
  moreover have "variants_loop vs fileName newUrl text = Miss
                 \<or> variants_loop vs fileName newUrl text = Throws"
    using Cons by simp
  ultimately show ?case by auto
qed

lemma rx_match_literal_only:
  "rx_match (map lit p) s = (if startsWith s p then Some (map MChar p) else None)"
  using rx_match_literal [of p "[]" s] by simp

lemma rx_replace_literal_Nil:
  "p \<noteq> [] \<Longrightarrow> rx_replace_from (map lit p) t pre [] = []"
  by (cases p) (simp_all add: rx_replace_from.simps rx_match_literal_only)

lemma rx_replace_literal_Cons:
  assumes "p \<noteq> []" and "CHR ''$'' \<notin> set t"
  shows "rx_replace_from (map lit p) t pre (c # cs) =
           (if startsWith (c # cs) p
            then t @ rx_replace_from (map lit p) t (pre @ p) (drop (length p) (c # cs))
            else c # rx_replace_from (map lit p) t (pre @ [c]) cs)"
  using assms by (simp add: rx_replace_from.simps rx_match_literal_only expand_template_plain Let_def)

lemma literal_replace_includes_new:
  assumes "p \<noteq> []" and "CHR ''$'' \<notin> set t"
  shows "includes_str s p \<Longrightarrow> includes_str (rx_replace_from (map lit p) t pre s) t"
proof (induction "length s" arbitrary: s pre rule: less_induct)
  case less
  show ?case
  proof (cases s)
    case Nil
    then show ?thesis using less.prems assms by simp
  next
    case (Cons c cs)
    show ?thesis
    proof (cases "startsWith (c # cs) p")
      case True
      have "includes_str (t @ rx_replace_from (map lit p) t (pre @ p) (drop (length p) (c # cs))) t"
        unfolding includes_str_iff by (metis append_Nil)
      then show ?thesis using True Cons assms by (simp add: rx_replace_literal_Cons)
    next
      case False
      then have "includes_str cs p" using less.prems Cons by simp
      then have "includes_str (rx_replace_from (map lit p) t (pre @ [c]) cs) t"
        using less.hyps [of cs] Cons by simp
      then show ?thesis using False Cons assms by (simp add: rx_replace_literal_Cons)
    qed
  qed
qed

lemma literal_replace_keeps_prefix:
  assumes "p \<noteq> []" and "CHR ''$'' \<notin> set t" and "hd t = a" and "t \<noteq> []" and "a \<notin> set q"
  shows "startsWith (rx_replace_from (map lit p) t pre s) q \<Longrightarrow> startsWith s q"
  using assms(5)
proof (induction q arbitrary: s pre)
  case Nil
  then show ?case by simp
next
  case (Cons x q)
  show ?case
  proof (cases s)
    case Nil
    then show ?thesis using Cons.prems assms(1) by (simp add: rx_replace_literal_Nil)
  next
    case (Cons c cs)
    show ?thesis
    proof (cases "startsWith (c # cs) p")
      case True
      obtain t' where t: "t = a # t'" using assms(3,4) by (cases t) auto
      have eq: "rx_replace_from (map lit p) t pre (c # cs)
                  = t @ rx_replace_from (map lit p) t (pre @ p) (drop (length p) (c # cs))"
        using True assms(1,2) by (simp add: rx_replace_literal_Cons)
      have "startsWith (t @ rx_replace_from (map lit p) t (pre @ p) (drop (length p) (c # cs))) (x # q)"
        using Cons.prems(1) unfolding \<open>s = c # cs\<close> eq .
      then have "a = x" unfolding t by simp
      then show ?thesis using Cons.prems(2) by simp
    next
      case False
      then have eq: "rx_replace_from (map lit p) t pre (c # cs)
                       = c # rx_replace_from (map lit p) t (pre @ [c]) cs"
        using assms(1,2) by (simp add: rx_replace_literal_Cons)
      have "startsWith (c # rx_replace_from (map lit p) t (pre @ [c]) cs) (x # q)"
        using Cons.prems(1) unfolding \<open>s = c # cs\<close> eq .
      then have "c = x" and "startsWith (rx_replace_from (map lit p) t (pre @ [c]) cs) q" by auto
      then show ?thesis using Cons.IH [of "pre @ [c]" cs] Cons.prems(2) \<open>s = c # cs\<close> by simp
    qed
  qed
qed

lemma literal_replace_removes_old:
  assumes "p = a # p'" and "a \<notin> set p'" and "CHR ''$'' \<notin> set t" and "hd t = a" and "t \<noteq> []"
    and border: "\<And>x. includes_str (t @ x) p \<Longrightarrow> includes_str x p"
  shows "\<not> includes_str (rx_replace_from (map lit p) t pre s) p"
proof (induction "length s" arbitrary: s pre rule: less_induct)
  case less
  have pne: "p \<noteq> []" using assms(1) by simp
  show ?case
  proof (cases s)
    case Nil
    then show ?thesis using pne by (simp add: rx_replace_literal_Nil)
  next
    case (Cons c cs)
    show ?thesis
    proof (cases "startsWith (c # cs) p")
      case True
      have "length (drop (length p) (c # cs)) < length s" using Cons pne by simp
      then have "\<not> includes_str (rx_replace_from (map lit p) t (pre @ p) (drop (length p) (c # cs))) p"
        using less.hyps by blast
      then have "\<not> includes_str (t @ rx_replace_from (map lit p) t (pre @ p) (drop (length p) (c # cs))) p"
        using border by blast
      then show ?thesis using True Cons pne assms(3) by (simp add: rx_replace_literal_Cons)
    next
      case False
      have ih: "\<not> includes_str (rx_replace_from (map lit p) t (pre @ [c]) cs) p"
        using less.hyps [of cs] Cons by simp
      have "\<not> startsWith (c # rx_replace_from (map lit p) t (pre @ [c]) cs) p"
      proof
        assume sw: "startsWith (c # rx_replace_from (map lit p) t (pre @ [c]) cs) p"
        then have "c = a" and "startsWith (rx_replace_from (map lit p) t (pre @ [c]) cs) p'"
          using assms(1) by auto
        then have "startsWith cs p'"
          using literal_replace_keeps_prefix [OF pne assms(3,4,5,2)] by blast
        then have "startsWith (c # cs) p" using \<open>c = a\<close> assms(1) by simp
        then show False using False by simp
      qed
      then have "\<not> includes_str (c # rx_replace_from (map lit p) t (pre @ [c]) cs) p"
        using ih by simp
      then show ?thesis using False Cons pne assms(3) by (simp add: rx_replace_literal_Cons)
    qed
  qed
qed

lemma str_replace_first:
  assumes "CHR ''$'' \<notin> set t"
  shows "includes_str s p \<Longrightarrow>
         \<exists>a b. s = a @ p @ b \<and> str_replace_from p t pre s = a @ t @ b
               \<and> (\<forall>a' b'. s = a' @ p @ b' \<longrightarrow> length a \<le> length a')"
proof (induction s arbitrary: pre)
  case Nil
  then have "p = []" by simp
  then show ?case using assms by (simp add: expand_template_plain)
next
  case (Cons c cs)
  show ?case
  proof (cases "startsWith (c # cs) p")
    case True
    then obtain r where r: "c # cs = p @ r" by (auto simp: startsWith_iff)
    then have "drop (length p) (c # cs) = r" by (metis append_eq_conv_conj)
    then have "str_replace_from p t pre (c # cs) = [] @ t @ r"
      using True assms by (simp add: expand_template_plain)
    moreover have "c # cs = [] @ p @ r" using r by simp
    ultimately show ?thesis by (metis list.size(3) le0)
  next
    case False
    then have "includes_str cs p" using Cons.prems by simp
    then obtain a b where ab: "cs = a @ p @ b" "str_replace_from p t (pre @ [c]) cs = a @ t @ b"
      "\<forall>a' b'. cs = a' @ p @ b' \<longrightarrow> length a \<le> length a'"
      using Cons.IH [of "pre @ [c]"] by blast
    have 1: "c # cs = (c # a) @ p @ b" using ab(1) by simp
    have 2: "str_replace_from p t pre (c # cs) = (c # a) @ t @ b" using False ab(2) by simp
    have 3: "\<forall>a' b'. c # cs = a' @ p @ b' \<longrightarrow> length (c # a) \<le> length a'"
    proof (intro allI impI)
      fix a' b' assume eq: "c # cs = a' @ p @ b'"
      show "length (c # a) \<le> length a'"
      proof (cases a')
        case Nil
        then have "startsWith (c # cs) p" using eq by (auto simp: startsWith_iff)
        then show ?thesis using False by simp
      next
        case (Cons x a'')
        then have "cs = a'' @ p @ b'" using eq by simp
        then have "length a \<le> length a''" using ab(3) by blast
        then show ?thesis using Cons by simp
      qed
    qed
    show ?thesis using 1 2 3 by blast
  qed
qed

lemma content_setValue [simp]: "content (setValue v ed) = v"
  by (simp add: setValue_def)

lemma variants_foo_png:
  "\<exists>vs. generatePathVariants ''foo.png'' ''foo.png'' = ''foo.png'' # vs"
  by (simp add: generatePathVariants_def set_add_def Let_def)

lemma patterns_foo_png:
  "\<exists>ps. generateReplacementPatterns ''foo.png'' ''foo.png'' ''https://x/y.png''
         = \<lparr>pattern = ''![foo.png](foo.png)'', replacement = ''![foo.png](https://x/y.png)'',
             isRegex = False\<rparr> # ps"
  by (simp add: generateReplacementPatterns_def Let_def)

text \<open>
  Every pattern that \<open>generateReplacementPatterns\<close> builds lies in the modelled fragment,
  so both versions of \<open>replaceImageLinkInDocument\<close> have a result in the model for every
  input. The pattern meant for any path that holds the file name never compiles: its last
  parenthesis closes no group.
\<close>

lemma apply_pattern_generated:
  assumes "p \<in> set (generateReplacementPatterns variant fileName newUrl)"
  shows "apply_pattern p newContent \<noteq> OutsideModel"
proof (cases "isRegex p")
  case True
  then show ?thesis using generated_regex_compiles [OF assms True]
    by (auto simp: apply_pattern_def Let_def split: sum.splits rx_error.splits)
next
  case False
  then show ?thesis by (simp add: apply_pattern_def rx_compile_escaped)
qed

lemma patterns_loop_generated:
  assumes "\<forall>p \<in> set ps. apply_pattern p newContent \<noteq> OutsideModel"
  shows "patterns_loop ps newContent \<noteq> OutsideModel"
  using assms by (induction ps) (auto split: step.splits)

lemma variants_loop_generated:
  "variants_loop vs fileName newUrl newContent \<noteq> OutsideModel"
proof (induction vs)
  case Nil
  then show ?case by simp
next
  case (Cons v vs)
  have "patterns_loop (generateReplacementPatterns v fileName newUrl) newContent \<noteq> OutsideModel"
    by (intro patterns_loop_generated ballI) (rule apply_pattern_generated)
  then show ?case using Cons by (auto split: step.splits)
qed

lemma replaceImageLinkInDocument_modelled:
  "\<exists>r. replaceImageLinkInDocument ed oldPath newUrl fileName = Some r"
  using variants_loop_generated [of "generatePathVariants fileName oldPath" fileName newUrl "content ed"]
  by (auto simp: replaceImageLinkInDocument_def split: step.splits)

lemma replaceImageLinkInDocument_earlier_modelled:
  "\<exists>r. replaceImageLinkInDocument_earlier ed oldPath newUrl fileName = Some r"
  by (auto simp: replaceImageLinkInDocument_earlier_def Let_def rx_compile_path_contains)

text \<open>
  C3. When none of the patterns of the patcher finds an occurrence in the text of the
  document, \<open>replaceImageLinkInDocument\<close> returns false and the editor is as before: the
  text is unchanged and \<open>setValue\<close> was not called. This holds for the version over path
  variants and for the earlier version; for the earlier one it is enough that the exact
  reference does not occur.
\<close>

theorem no_match_leaves_document:
  assumes "\<forall>v \<in> set (generatePathVariants fileName oldPath).
             \<forall>p \<in> set (generateReplacementPatterns v fileName newUrl). \<not> pattern_finds p (content ed)"
    and "\<not> includes_str (content ed) (''!['' @ fileName @ '']('' @ oldPath @ '')'')"
  shows "replaceImageLinkInDocument ed oldPath newUrl fileName = Some (False, ed)
         \<and> replaceImageLinkInDocument_earlier ed oldPath newUrl fileName = Some (False, ed)"
proof
  show "replaceImageLinkInDocument ed oldPath newUrl fileName = Some (False, ed)"
    using variants_loop_no_find [OF assms(1)] by (auto simp: replaceImageLinkInDocument_def)
  show "replaceImageLinkInDocument_earlier ed oldPath newUrl fileName = Some (False, ed)"
    using assms(2)
    by (simp add: replaceImageLinkInDocument_earlier_def Let_def rx_compile_path_contains)
qed

theorem no_match_leaves_document_witness:
  "replaceImageLinkInDocument \<lparr>content = ''no image'', setValueCalls = 0\<rparr>
       ''foo.png'' ''https://x/y.png'' ''foo.png''
     = Some (False, \<lparr>content = ''no image'', setValueCalls = 0\<rparr>)
   \<and> replaceImageLinkInDocument_earlier \<lparr>content = ''no image'', setValueCalls = 0\<rparr>
       ''foo.png'' ''https://x/y.png'' ''foo.png''
     = Some (False, \<lparr>content = ''no image'', setValueCalls = 0\<rparr>)"
proof -
  have 1: "\<forall>v \<in> set (generatePathVariants ''foo.png'' ''foo.png'').
             \<forall>p \<in> set (generateReplacementPatterns v ''foo.png'' ''https://x/y.png'').
               \<not> pattern_finds p (content \<lparr>content = ''no image'', setValueCalls = 0\<rparr>)"
    by (simp add: generatePathVariants_def set_add_def generateReplacementPatterns_def Let_def
          pattern_finds_def rx_compile_alt_text rx_compile_path_contains)
  have 2: "\<not> includes_str (content \<lparr>content = ''no image'', setValueCalls = 0\<rparr>)
             (''!['' @ ''foo.png'' @ '']('' @ ''foo.png'' @ '')'')"
    by simp
  show ?thesis using no_match_leaves_document [OF 1 2] .
qed

text \<open>
  C8 (as amended). For every document text that contains the reference
  \<open>![foo.png](foo.png)\<close>, committing with the original reference \<open>foo.png\<close> and the
  remote address \<open>https://x/y.png\<close> returns true. With the version over path variants
  the new text contains \<open>![foo.png](https://x/y.png)\<close> and the original reference occurs
  nowhere in it. With the earlier version the first occurrence of the original reference,
  and only that one, is replaced by \<open>![foo.png](https://x/y.png)\<close>.
\<close>

theorem commit_foo_png:
  assumes "includes_str (content ed) ''![foo.png](foo.png)''"
  shows "(\<exists>ed'. replaceImageLinkInDocument ed ''foo.png'' ''https://x/y.png'' ''foo.png'' = Some (True, ed')
            \<and> includes_str (content ed') ''![foo.png](https://x/y.png)''
            \<and> \<not> includes_str (content ed') ''![foo.png](foo.png)'')
         \<and> (\<exists>ed' pre post.
               replaceImageLinkInDocument_earlier ed ''foo.png'' ''https://x/y.png'' ''foo.png'' = Some (True, ed')
             \<and> content ed = pre @ ''![foo.png](foo.png)'' @ post
             \<and> (\<forall>pre' post'. content ed = pre' @ ''![foo.png](foo.png)'' @ post' \<longrightarrow> length pre \<le> length pre')
             \<and> content ed' = pre @ ''![foo.png](https://x/y.png)'' @ post)"
proof
  let ?P = "''![foo.png](foo.png)''"
  let ?R = "''![foo.png](https://x/y.png)''"
  let ?new = "rx_replace_all (map lit ?P) ?R (content ed)"
  obtain vs where vs: "generatePathVariants ''foo.png'' ''foo.png'' = ''foo.png'' # vs"
    using variants_foo_png by blast
  obtain ps where ps: "generateReplacementPatterns ''foo.png'' ''foo.png'' ''https://x/y.png''
         = \<lparr>pattern = ?P, replacement = ?R, isRegex = False\<rparr> # ps"
    using patterns_foo_png by blast
  have hit: "apply_pattern \<lparr>pattern = ?P, replacement = ?R, isRegex = False\<rparr> (content ed) = Hit ?new"
    using assms rx_compile_escaped [of ?P] by (simp add: apply_pattern_def)
  have res: "replaceImageLinkInDocument ed ''foo.png'' ''https://x/y.png'' ''foo.png''
               = Some (True, setValue ?new ed)"
    by (simp add: replaceImageLinkInDocument_def vs ps hit)
  have new: "includes_str ?new ?R"
    unfolding rx_replace_all_def
    by (rule literal_replace_includes_new [OF _ _ assms]) simp_all
  have old: "\<not> includes_str ?new ?P"
    unfolding rx_replace_all_def
    by (rule literal_replace_removes_old [where a = "CHR ''!''" and p' = "''[foo.png](foo.png)''"])
       simp_all
  show "\<exists>ed'. replaceImageLinkInDocument ed ''foo.png'' ''https://x/y.png'' ''foo.png'' = Some (True, ed')
            \<and> includes_str (content ed') ?R \<and> \<not> includes_str (content ed') ?P"
    using res new old by simp
next
  let ?P = "''![foo.png](foo.png)''"
  let ?R = "''![foo.png](https://x/y.png)''"
  obtain a b where ab: "content ed = a @ ?P @ b" "str_replace_from ?P ?R [] (content ed) = a @ ?R @ b"
      "\<forall>a' b'. content ed = a' @ ?P @ b' \<longrightarrow> length a \<le> length a'"
    using str_replace_first [OF _ assms, of ?R "[]"] by auto
  have "replaceImageLinkInDocument_earlier ed ''foo.png'' ''https://x/y.png'' ''foo.png''
          = Some (True, setValue (a @ ?R @ b) ed)"
    using assms ab(2) by (simp add: replaceImageLinkInDocument_earlier_def str_replace_def)
  then show "\<exists>ed' pre post.
               replaceImageLinkInDocument_earlier ed ''foo.png'' ''https://x/y.png'' ''foo.png'' = Some (True, ed')
             \<and> content ed = pre @ ?P @ post
             \<and> (\<forall>pre' post'. content ed = pre' @ ?P @ post' \<longrightarrow> length pre \<le> length pre')
             \<and> content ed' = pre @ ?R @ post"
    using ab(1,3) by (metis content_setValue)
qed

theorem commit_foo_png_witness:
  "includes_str ''see ![foo.png](foo.png)'' ''![foo.png](foo.png)''
   \<and> (\<exists>ed'. replaceImageLinkInDocument \<lparr>content = ''see ![foo.png](foo.png)'', setValueCalls = 0\<rparr>
                ''foo.png'' ''https://x/y.png'' ''foo.png'' = Some (True, ed')
            \<and> includes_str (content ed') ''![foo.png](https://x/y.png)''
            \<and> \<not> includes_str (content ed') ''![foo.png](foo.png)'')"
  using commit_foo_png [of "\<lparr>content = ''see ![foo.png](foo.png)'', setValueCalls = 0\<rparr>"]
  by simp

text \<open>
  C8 as stated fails on the earlier version: of two occurrences of the original reference
  it replaces the first and leaves the second in the text.
\<close>

theorem earlier_version_keeps_second_reference:
  "replaceImageLinkInDocument_earlier
     \<lparr>content = ''![foo.png](foo.png) ![foo.png](foo.png)'', setValueCalls = 0\<rparr>
     ''foo.png'' ''https://x/y.png'' ''foo.png''
   = Some (True, \<lparr>content = ''![foo.png](https://x/y.png) ![foo.png](foo.png)'', setValueCalls = 1\<rparr>)
   \<and> includes_str ''![foo.png](https://x/y.png) ![foo.png](foo.png)'' ''![foo.png](foo.png)''"
  by (simp add: replaceImageLinkInDocument_earlier_def str_replace_def setValue_def)

section \<open>Results about staging\<close>

text \<open>
  C7. The claim fails on the code for a name without a dot that is already taken in the
  temporary directory: \<open>lastIndexOf\<close> gives -1, so the name without extension is empty
  and the extension is the whole name, and the time stamp is put in front of the name.
  \<open>image\<close> becomes \<open>_1700000000000image\<close>, where the claim puts the disambiguator
  before the extension, that is after the name.
\<close>

theorem temp_name_without_extension:
  "createTempFile (plain_env (\<lambda>c t. Inl NonError)) (\<lambda>p. None)
     \<lparr>file_name = ''image'', file_size = 3, file_lastModified = 7\<rparr> [1, 2, 3]
     [''/tmp/image'' \<mapsto> [9]] 1700000000000
   = Inr (''/tmp/_1700000000000image'',
          [''/tmp/image'' \<mapsto> [9], ''/tmp/_1700000000000image'' \<mapsto> [1, 2, 3]])"
  by (simp add: createTempFile_def plain_env_def substring_def lastIndexOf_def clamp_index_def
        substring_from_def show_int_def show_nat.simps digit_char_def Let_def)

text \<open>
  Where the name is free it is kept, and the bytes are stored under it. A taken name with
  an extension gets the time stamp before its last extension.
\<close>

lemma createTempFile_free_name:
  assumes "isDesktop e" and "files (path_join e (tmpdir e) (file_name file)) = None"
    and "write_error (path_join e (tmpdir e) (file_name file)) = None"
  shows "createTempFile e write_error file bytes files now =
           Inr (path_join e (tmpdir e) (file_name file),
                files(path_join e (tmpdir e) (file_name file) \<mapsto> bytes))"
  using assms by (simp add: createTempFile_def Let_def)

lemma temp_name_with_extension:
  "createTempFile (plain_env (\<lambda>c t. Inl NonError)) (\<lambda>p. None)
     \<lparr>file_name = ''photo.tar.png'', file_size = 3, file_lastModified = 7\<rparr> [1, 2, 3]
     [''/tmp/photo.tar.png'' \<mapsto> [9]] 1700000000000
   = Inr (''/tmp/photo.tar_1700000000000.png'',
          [''/tmp/photo.tar.png'' \<mapsto> [9], ''/tmp/photo.tar_1700000000000.png'' \<mapsto> [1, 2, 3]])"
  by (simp add: createTempFile_def plain_env_def substring_def lastIndexOf_def clamp_index_def
        substring_from_def show_int_def show_nat.simps digit_char_def Let_def)

section \<open>Results about testing a candidate\<close>

lemma isUPicProcessRunning_spawned:
  "spawned (snd (isUPicProcessRunning e w)) = spawned w @ [processCheckCommand e]"
  by (auto simp: isUPicProcessRunning_def execAsync_def split: sum.splits option.splits prod.splits)

lemma running_env_running:
  "isUPicProcessRunning running_env w
     = (True, w\<lparr>spawned := spawned w @ [processCheckCommand running_env]\<rparr>)"
  by (simp add: isUPicProcessRunning_def execAsync_def running_env_def plain_env_def parseInt_def
        trim_def trimStart_def trimEnd_def isWhiteSpace_def isDigit_def digit_value_def Let_def)

text \<open>
  C4 (as amended). For every non-empty candidate for which a read of the cache gives no
  result: if a process of the tool is running, \<open>testUPicPath\<close> returns true, stores a
  positive entry with the current time for the candidate, and spawns one command only, the
  query of the process list, which does not invoke the candidate. For a candidate for which
  the read gives a result, that result is returned and nothing is spawned.
\<close>

theorem running_process_accepts_uncached:
  "(path \<noteq> [] \<and> fst (getCachedAvailability path u w) = None \<and> fst (isUPicProcessRunning e w) \<longrightarrow>
      (\<exists>u' w'. testUPicPath e path u w = (True, u', w')
         \<and> availabilityCache u' path = Some \<lparr>available = True, timestamp = clock w'\<rparr>
         \<and> spawned w' = spawned w @ [processCheckCommand e]))
   \<and> (path \<noteq> [] \<and> fst (getCachedAvailability path u w) = Some b \<longrightarrow>
      (\<exists>u' w'. testUPicPath e path u w = (b, u', w') \<and> spawned w' = spawned w))"
proof (intro conjI impI)
  assume a: "path \<noteq> [] \<and> fst (getCachedAvailability path u w) = None \<and> fst (isUPicProcessRunning e w)"
  obtain u1 where u1: "getCachedAvailability path u w = (None, u1)"
    using a by (cases "getCachedAvailability path u w") auto
  obtain w1 where w1: "isUPicProcessRunning e w = (True, w1)"
    using a by (cases "isUPicProcessRunning e w") auto
  have sp: "spawned w1 = spawned w @ [processCheckCommand e]"
    using isUPicProcessRunning_spawned [of e w] w1 by simp
  show "\<exists>u' w'. testUPicPath e path u w = (True, u', w')
         \<and> availabilityCache u' path = Some \<lparr>available = True, timestamp = clock w'\<rparr>
         \<and> spawned w' = spawned w @ [processCheckCommand e]"
    using a u1 w1 sp by (simp add: testUPicPath_def testUPicPath_run_def setCachedAvailability_def)
next
  assume a: "path \<noteq> [] \<and> fst (getCachedAvailability path u w) = Some b"
  obtain u1 where u1: "getCachedAvailability path u w = (Some b, u1)"
    using a by (cases "getCachedAvailability path u w") auto
  show "\<exists>u' w'. testUPicPath e path u w = (b, u', w') \<and> spawned w' = spawned w"
    using a u1 by (simp add: testUPicPath_def testUPicPath_run_def)
qed

theorem running_process_accepts_uncached_witness:
  "(''/no/such/upic'' \<noteq> []
    \<and> fst (getCachedAvailability ''/no/such/upic'' (example_uploader ''/usr/bin/upic'' True 0) world0) = None
    \<and> fst (isUPicProcessRunning running_env world0))
   \<and> (\<exists>u' w'. testUPicPath running_env ''/no/such/upic'' (example_uploader ''/usr/bin/upic'' True 0) world0
                  = (True, u', w')
         \<and> availabilityCache u' ''/no/such/upic'' = Some \<lparr>available = True, timestamp = clock w'\<rparr>
         \<and> spawned w' = spawned world0 @ [processCheckCommand running_env])"
proof -
  have h: "''/no/such/upic'' \<noteq> []
    \<and> fst (getCachedAvailability ''/no/such/upic'' (example_uploader ''/usr/bin/upic'' True 0) world0) = None
    \<and> fst (isUPicProcessRunning running_env world0)"
    by (simp add: running_env_running getCachedAvailability_def example_uploader_def)
  show ?thesis
    using h running_process_accepts_uncached
            [of "''/no/such/upic''" "example_uploader ''/usr/bin/upic'' True 0" world0 running_env]
    by blast
qed

text \<open>
  C4 as stated fails: a negative entry that is still within its window is returned although
  a process of the tool is running.
\<close>

theorem cached_negative_beats_running_process:
  "fst (isUPicProcessRunning running_env world0)
   \<and> fst (testUPicPath running_env ''/usr/local/bin/upic''
            (example_uploader ''/usr/local/bin/upic'' False 0) world0) = False"
  by (simp add: running_env_running testUPicPath_def testUPicPath_run_def getCachedAvailability_def
        example_uploader_def world0_def cacheTimeout_def Let_def)

lemma isUPicProcessRunning_fs:
  "isUPicProcessRunning (e\<lparr>existsSync := ex, statSync := st, accessSync := ac\<rparr>) w
     = isUPicProcessRunning e w"
  by (simp add: isUPicProcessRunning_def execAsync_def processCheckCommand_def)

text \<open>
  C10 (as amended). When a process of the tool is running, \<open>testUPicPath\<close> returns true
  for every non-empty candidate for which a read of the cache does not give a negative
  result, whatever the file system says about the candidate (whether it exists, is a file,
  may be executed); afterwards the candidate has a positive entry in the cache.
\<close>

theorem running_process_skips_file_checks:
  assumes "path \<noteq> []" and "fst (getCachedAvailability path u w) \<noteq> Some False"
    and "fst (isUPicProcessRunning e w)"
  shows "\<exists>u' w' t. testUPicPath (e\<lparr>existsSync := ex, statSync := st, accessSync := ac\<rparr>) path u w
                      = (True, u', w')
           \<and> availabilityCache u' path = Some \<lparr>available = True, timestamp = t\<rparr>"
proof -
  let ?e = "e\<lparr>existsSync := ex, statSync := st, accessSync := ac\<rparr>"
  obtain w1 where w1: "isUPicProcessRunning ?e w = (True, w1)"
    using assms(3) by (cases "isUPicProcessRunning e w") (auto simp: isUPicProcessRunning_fs)
  obtain c u1 where c: "getCachedAvailability path u w = (c, u1)"
    by (cases "getCachedAvailability path u w")
  show ?thesis
  proof (cases c)
    case None
    then show ?thesis using assms(1) c w1
      by (simp add: testUPicPath_def testUPicPath_run_def setCachedAvailability_def)
  next
    case (Some b)
    then have b: "b = True" using assms(2) c by simp
    obtain entry where entry: "availabilityCache u path = Some entry" "available entry" "u1 = u"
      using c Some b
      by (auto simp: getCachedAvailability_def Let_def split: option.splits if_splits)
    have "availabilityCache u path = Some \<lparr>available = True, timestamp = timestamp entry\<rparr>"
      using entry(1,2) by (cases entry) simp
    then show ?thesis using assms(1) c Some b entry(3)
      by (simp add: testUPicPath_def testUPicPath_run_def)
  qed
qed

theorem running_process_skips_file_checks_witness:
  "(''/no/such/upic'' \<noteq> []
    \<and> fst (getCachedAvailability ''/no/such/upic'' (example_uploader ''/usr/bin/upic'' True 0) world0)
        \<noteq> Some False
    \<and> fst (isUPicProcessRunning running_env world0))
   \<and> (\<exists>u' w' t.
         testUPicPath (running_env\<lparr>existsSync := (\<lambda>p. False), statSync := (\<lambda>p. None),
                                   accessSync := (\<lambda>p. False)\<rparr>)
           ''/no/such/upic'' (example_uploader ''/usr/bin/upic'' True 0) world0 = (True, u', w')
         \<and> availabilityCache u' ''/no/such/upic'' = Some \<lparr>available = True, timestamp = t\<rparr>)"
proof -
  have 1: "''/no/such/upic'' \<noteq> []" by simp
  have 2: "fst (getCachedAvailability ''/no/such/upic'' (example_uploader ''/usr/bin/upic'' True 0) world0)
             \<noteq> Some False"
    by (simp add: getCachedAvailability_def example_uploader_def)
  have 3: "fst (isUPicProcessRunning running_env world0)"
    by (simp add: running_env_running)
  show ?thesis
    using 1 2 3 running_process_skips_file_checks [OF 1 2 3, of "\<lambda>p. False" "\<lambda>p. None" "\<lambda>p. False"]
    by blast
qed

text \<open>
  C10 as stated fails: a candidate that does not exist is tested while the tool is not
  running and gets a negative entry; then the tool is started, and the next test of the
  candidate, inside the window of that entry, still returns false.
\<close>

theorem tested_negative_then_tool_started:
  "fst (testUPicPath idle_env ''/no/such/upic'' (example_uploader ''/usr/bin/upic'' True 0) world0) = False
   \<and> fst (isUPicProcessRunning running_env
            (snd (snd (testUPicPath idle_env ''/no/such/upic''
                         (example_uploader ''/usr/bin/upic'' True 0) world0))))
   \<and> fst (testUPicPath running_env ''/no/such/upic''
            (fst (snd (testUPicPath idle_env ''/no/such/upic''
                         (example_uploader ''/usr/bin/upic'' True 0) world0)))
            (snd (snd (testUPicPath idle_env ''/no/such/upic''
                         (example_uploader ''/usr/bin/upic'' True 0) world0)))) = False"
proof -
  have idle: "\<And>w. isUPicProcessRunning idle_env w
                = (False, w\<lparr>spawned := spawned w @ [processCheckCommand idle_env]\<rparr>)"
    by (simp add: isUPicProcessRunning_def execAsync_def idle_env_def plain_env_def parseInt_def
        trim_def trimStart_def trimEnd_def isWhiteSpace_def isDigit_def digit_value_def Let_def)
  have first: "testUPicPath idle_env ''/no/such/upic'' (example_uploader ''/usr/bin/upic'' True 0) world0
      = (False,
         setCachedAvailability ''/no/such/upic'' False (example_uploader ''/usr/bin/upic'' True 0)
           (world0\<lparr>spawned := spawned world0 @ [processCheckCommand idle_env]\<rparr>),
         world0\<lparr>spawned := spawned world0 @ [processCheckCommand idle_env],
                probes := probes world0 @ [(''/no/such/upic'', False)]\<rparr>)"
    by (simp add: testUPicPath_def testUPicPath_run_def getCachedAvailability_def idle
          example_uploader_def expandPath_def)
       (simp add: idle_env_def plain_env_def)
  show ?thesis
    unfolding first
    by (simp add: running_env_running testUPicPath_def testUPicPath_run_def
          getCachedAvailability_def setCachedAvailability_def example_uploader_def world0_def
          cacheTimeout_def Let_def)
qed

section \<open>Results about uploading\<close>






lemma urlRegex_compiled: "rx_compile urlRegex_source = Inr urlRegex"
  by (simp add: rx_compile_def urlRegex_source_def urlRegex_def isSpecial_def)

lemma rx_match_star_tail:
  "rx_match [IAtom a QStar, IClose] s = Some (map MChar (takeWhile (atom_ok a) s) @ [MClose])"
  by (induction s) auto

lemma matched_text_chars: "matched_text (map MChar p @ [MClose]) = p"
  by (induction p) auto

lemma atom_ok_not_space: "atom_ok (AClass True [CSpace]) = (\<lambda>c. \<not> isWhiteSpace c)"
  by (rule ext) simp

lemma rx_match_lit_case:
  "rx_match (lit c # is) s =
     (case s of [] \<Rightarrow> None
      | x # xs \<Rightarrow> if x = c then map_option (Cons (MChar x)) (rx_match is xs) else None)"
  by (cases s) auto

lemma rx_match_opt_case:
  "rx_match (IAtom a QOpt # is) s =
     (case s of [] \<Rightarrow> rx_match is []
      | c # cs \<Rightarrow> if atom_ok a c
                  then (case rx_match is cs of Some r \<Rightarrow> Some (MChar c # r) | None \<Rightarrow> rx_match is (c # cs))
                  else rx_match is (c # cs))"
  by (cases s) auto

lemma url_match_https:
  "map_option matched_text (rx_match urlRegex (''https://'' @ r)) = spec_url_at (''https://'' @ r)"
  by (cases r) (auto simp: urlRegex_def spec_url_at_def rx_match_star_tail matched_text_chars
                 atom_ok_not_space Let_def)

lemma url_match_http:
  "map_option matched_text (rx_match urlRegex (''http://'' @ r)) = spec_url_at (''http://'' @ r)"
  by (cases r) (auto simp: urlRegex_def spec_url_at_def rx_match_star_tail matched_text_chars
                 atom_ok_not_space Let_def)

lemma url_match_none:
  assumes "\<not> startsWith s ''https://''" and "\<not> startsWith s ''http://''"
  shows "rx_match urlRegex s = None"
proof (rule ccontr)
  assume "rx_match urlRegex s \<noteq> None"
  then obtain m where m: "rx_match urlRegex s = Some m" by auto
  then have "(\<exists>r. s = ''https://'' @ r) \<or> (\<exists>r. s = ''http://'' @ r)"
    by (auto simp: urlRegex_def rx_match_lit_case rx_match_opt_case
             split: list.splits if_splits option.splits)
  then show False using assms by (simp add: startsWith_iff)
qed

lemma url_match:
  "map_option matched_text (rx_match urlRegex s) = spec_url_at s"
proof (cases "startsWith s ''https://''")
  case True
  then obtain r where "s = ''https://'' @ r" by (auto simp: startsWith_iff)
  then show ?thesis using url_match_https by simp
next
  case False
  show ?thesis
  proof (cases "startsWith s ''http://''")
    case True
    then obtain r where "s = ''http://'' @ r" by (auto simp: startsWith_iff)
    then show ?thesis using url_match_http by simp
  next
    case False
    then show ?thesis using \<open>\<not> startsWith s ''https://''\<close> url_match_none
      by (simp add: spec_url_at_def)
  qed
qed

lemma rx_first_url: "rx_first urlRegex s = spec_first_embedded_url s"
proof (induction s)
  case Nil
  show ?case using url_match [of "[]"] by (simp add: spec_url_at_def)
next
  case (Cons c cs)
  have "spec_url_at (c # cs) = map_option matched_text (rx_match urlRegex (c # cs))"
    by (simp add: url_match)
  then show ?case using Cons
    by (cases "rx_match urlRegex (c # cs)") auto
qed

lemma trimStart_ws: "isWhiteSpace c \<Longrightarrow> trimStart (c # s) = trimStart s"
  by (simp add: trimStart_def)

lemma trim_Cons_ws: "isWhiteSpace c \<Longrightarrow> trim (c # s) = trim s"
  by (simp add: trim_def trimStart_ws)

lemma trimEnd_snoc_ws: "isWhiteSpace c \<Longrightarrow> trimEnd (s @ [c]) = trimEnd s"
  by (simp add: trimEnd_def)

lemma trimEnd_snoc_other: "\<not> isWhiteSpace c \<Longrightarrow> trimEnd (s @ [c]) = s @ [c]"
  by (simp add: trimEnd_def)

lemma trim_snoc_ws: "isWhiteSpace c \<Longrightarrow> trim (s @ [c]) = trim s"
proof (cases "\<forall>x \<in> set s. isWhiteSpace x")
  case True
  assume "isWhiteSpace c"
  then have d: "dropWhile isWhiteSpace (s @ [c]) = []" "dropWhile isWhiteSpace s = []"
    using True by auto
  show ?thesis by (simp only: trim_def trimStart_def d)
next
  case False
  assume c: "isWhiteSpace c"
  obtain x where "x \<in> set s" "\<not> isWhiteSpace x" using False by auto
  then have "dropWhile isWhiteSpace (s @ [c]) = dropWhile isWhiteSpace s @ [c]"
    by (rule dropWhile_append1)
  then show ?thesis using c by (simp add: trim_def trimStart_def trimEnd_snoc_ws)
qed

lemma trim_Nil [simp]: "trim [] = []"
  by (simp add: trim_def trimStart_def trimEnd_def)

lemma not_scheme_Nil [simp]: "\<not> startsWithScheme []"
  by (simp add: startsWithScheme_def)

lemma split_on_nonempty: "split_on d s \<noteq> []"
  by (induction s) (auto split: list.splits)

lemma url_line_Cons_ws:
  assumes "isWhiteSpace c"
  shows "url_line (split_on CHR 0x0A (c # cs)) = url_line (split_on CHR 0x0A cs)"
proof (cases "c = CHR 0x0A")
  case True
  then show ?thesis by (simp add: url_line_def)
next
  case False
  obtain l ls where l: "split_on CHR 0x0A cs = l # ls"
    using split_on_nonempty [of "CHR 0x0A" cs] by (cases "split_on CHR 0x0A cs") auto
  show ?thesis using False l assms by (simp add: url_line_def trim_Cons_ws)
qed

lemma url_line_trimStart:
  "url_line (split_on CHR 0x0A (trimStart s)) = url_line (split_on CHR 0x0A s)"
proof (induction s)
  case Nil
  then show ?case by (simp add: trimStart_def)
next
  case (Cons c cs)
  show ?case
  proof (cases "isWhiteSpace c")
    case True
    then show ?thesis using Cons url_line_Cons_ws [OF True, of cs] by (simp add: trimStart_ws)
  next
    case False
    then show ?thesis by (simp add: trimStart_def)
  qed
qed

lemma split_on_snoc:
  "split_on d (s @ [c]) =
     (if c = d then split_on d s @ [[]]
      else butlast (split_on d s) @ [last (split_on d s) @ [c]])"
proof (induction s)
  case Nil
  then show ?case by simp
next
  case (Cons x xs)
  obtain l ls where l: "split_on d xs = l # ls"
    using split_on_nonempty [of d xs] by (cases "split_on d xs") auto
  show ?case using Cons l by (auto split: list.splits)
qed

lemma find_append_list:
  "find P (xs @ ys) = (case find P xs of None \<Rightarrow> find P ys | Some x \<Rightarrow> Some x)"
  by (induction xs) auto

lemma url_line_snoc_ws:
  assumes "isWhiteSpace c"
  shows "url_line (split_on CHR 0x0A (s @ [c])) = url_line (split_on CHR 0x0A s)"
proof (cases "c = CHR 0x0A")
  case True
  then show ?thesis
    by (simp add: split_on_snoc url_line_def find_append_list split: option.splits)
next
  case False
  let ?ls = "split_on CHR 0x0A s"
  have ne: "?ls \<noteq> []" by (rule split_on_nonempty)
  have "url_line (butlast ?ls @ [last ?ls @ [c]]) = url_line (butlast ?ls @ [last ?ls])"
    using assms by (simp add: url_line_def find_append_list trim_snoc_ws split: option.splits)
  then show ?thesis using False ne by (simp add: split_on_snoc)
qed

lemma url_line_trimEnd:
  "url_line (split_on CHR 0x0A (trimEnd s)) = url_line (split_on CHR 0x0A s)"
proof (induction s rule: rev_induct)
  case Nil
  then show ?case by (simp add: trimEnd_def)
next
  case (snoc c s)
  show ?case
  proof (cases "isWhiteSpace c")
    case True
    then show ?thesis using snoc url_line_snoc_ws [OF True, of s] by (simp add: trimEnd_snoc_ws)
  next
    case False
    then show ?thesis by (simp add: trimEnd_snoc_other)
  qed
qed

lemma url_line_trim:
  "url_line (split_on CHR 0x0A (trim s)) = url_line (split_on CHR 0x0A s)"
  by (simp add: trim_def url_line_trimEnd url_line_trimStart)

lemma trim_empty_all_space: "trim s = [] \<Longrightarrow> \<forall>c \<in> set s. isWhiteSpace c"
proof -
  assume "trim s = []"
  then have "dropWhile isWhiteSpace (rev (dropWhile isWhiteSpace s)) = []"
    by (simp add: trim_def trimStart_def trimEnd_def)
  then have all: "\<forall>c \<in> set (dropWhile isWhiteSpace s). isWhiteSpace c"
    by (simp add: dropWhile_eq_Nil_conv)
  have "dropWhile isWhiteSpace s = []"
  proof (cases "dropWhile isWhiteSpace s")
    case Nil
    then show ?thesis .
  next
    case (Cons x xs)
    then have "\<not> isWhiteSpace x" using hd_dropWhile [of isWhiteSpace s] by auto
    then show ?thesis using all Cons by auto
  qed
  then show ?thesis by (simp add: dropWhile_eq_Nil_conv)
qed

lemma no_url_in_space:
  "\<forall>c \<in> set s. isWhiteSpace c \<Longrightarrow> spec_first_embedded_url s = None"
  by (induction s) (auto simp: spec_url_at_def isWhiteSpace_def)

lemma parseUploadOutput_spec: "parseUploadOutput output = spec_upload_url output"
proof (cases "trim output = []")
  case True
  have "url_line (split_on CHR 0x0A output) = url_line (split_on CHR 0x0A (trim output))"
    by (simp add: url_line_trim)
  then have 1: "spec_first_url_line output = None"
    using True by (simp add: url_line_def spec_first_url_line_def)
  have 2: "spec_first_embedded_url output = None"
    using no_url_in_space trim_empty_all_space [OF True] by blast
  show ?thesis using True 1 2 by (simp add: parseUploadOutput_def spec_upload_url_def)
next
  case False
  then have ne: "output \<noteq> []" by auto
  have "url_line (split_on CHR 0x0A (trim output)) = spec_first_url_line output"
    by (simp add: url_line_trim) (simp add: url_line_def spec_first_url_line_def)
  then show ?thesis using False ne
    by (auto simp: parseUploadOutput_def spec_upload_url_def url_line_def startsWithScheme_def
          rx_first_url Let_def split: option.splits)
qed

lemma spec_url_at_nonempty: "spec_url_at s = Some v \<Longrightarrow> v \<noteq> []"
  by (auto simp: spec_url_at_def Let_def split: if_splits)

lemma spec_first_embedded_url_nonempty: "spec_first_embedded_url s = Some v \<Longrightarrow> v \<noteq> []"
  by (induction s) (auto simp: spec_url_at_nonempty split: option.splits)

lemma spec_upload_url_nonempty: "spec_upload_url s = Some v \<Longrightarrow> v \<noteq> []"
proof -
  assume a: "spec_upload_url s = Some v"
  show ?thesis
  proof (cases "spec_first_url_line s")
    case None
    then show ?thesis using a spec_first_embedded_url_nonempty by (simp add: spec_upload_url_def)
  next
    case (Some u)
    then obtain l where "startsWithScheme (trim l)" "u = trim l"
      by (auto simp: spec_first_url_line_def find_Some_iff)
    then have "u \<noteq> []" by auto
    then show ?thesis using a Some by (simp add: spec_upload_url_def)
  qed
qed

text \<open>
  C2. \<open>parseUploadOutput\<close> gives what the specification describes: the trimmed text of
  the first line of the output that, trimmed, begins with \<open>http://\<close> or \<open>https://\<close>;
  failing that, the first address embedded anywhere in the output; failing both, nothing.
  When the tool is found and its process ends normally with the standard output
  \<open>stdout\<close>, \<open>uploadFile\<close> returns a success with that address, and, when there is
  none, a failure with the message that the output could not be parsed.
\<close>

theorem upload_output_parsing:
  "parseUploadOutput output = spec_upload_url output
   \<and> (isDesktop e \<and> getAvailableUPicPath e u w = (Inr (Some p), u1, w1) \<and> p \<noteq> []
        \<and> run e (uploadCommand p filePath) (uploadTimeout (settings u1) * 1000) = Inr (stdout, stderr)
      \<longrightarrow> fst (uploadFile e filePath u w) =
            Inr (case spec_upload_url stdout of
                   None \<Rightarrow> \<lparr>success = False, url = None,
                            error = Some ''Failed to parse upload URL from uPic output'',
                            originalPath = filePath\<rparr>
                 | Some v \<Rightarrow> \<lparr>success = True, url = Some v, error = None,
                              originalPath = filePath\<rparr>))"
proof (intro conjI impI)
  show "parseUploadOutput output = spec_upload_url output" by (rule parseUploadOutput_spec)
next
  assume a: "isDesktop e \<and> getAvailableUPicPath e u w = (Inr (Some p), u1, w1) \<and> p \<noteq> []
        \<and> run e (uploadCommand p filePath) (uploadTimeout (settings u1) * 1000) = Inr (stdout, stderr)"
  show "fst (uploadFile e filePath u w) =
            Inr (case spec_upload_url stdout of
                   None \<Rightarrow> \<lparr>success = False, url = None,
                            error = Some ''Failed to parse upload URL from uPic output'',
                            originalPath = filePath\<rparr>
                 | Some v \<Rightarrow> \<lparr>success = True, url = Some v, error = None,
                              originalPath = filePath\<rparr>)"
  proof (cases "spec_upload_url stdout")
    case None
    then show ?thesis using a
      by (simp add: uploadFile_def uploadFile_try_def execAsync_def parseUploadOutput_spec Let_def)
  next
    case (Some v)
    then have "v \<noteq> []" by (rule spec_upload_url_nonempty)
    then show ?thesis using a Some
      by (simp add: uploadFile_def uploadFile_try_def execAsync_def parseUploadOutput_spec Let_def)
  qed
qed

theorem upload_output_parsing_witness:
  "(isDesktop (plain_env (\<lambda>c t. Inr (''done'', [])))
    \<and> getAvailableUPicPath (plain_env (\<lambda>c t. Inr (''done'', []))) found_uploader world0
        = (Inr (Some ''upic''), found_uploader, world0)
    \<and> ''upic'' \<noteq> []
    \<and> run (plain_env (\<lambda>c t. Inr (''done'', []))) (uploadCommand ''upic'' ''/tmp/a.png'')
          (uploadTimeout (settings found_uploader) * 1000) = Inr (''done'', []))
   \<and> spec_upload_url ''done'' = None
   \<and> fst (uploadFile (plain_env (\<lambda>c t. Inr (''done'', []))) ''/tmp/a.png'' found_uploader world0)
       = Inr \<lparr>success = False, url = None,
              error = Some ''Failed to parse upload URL from uPic output'',
              originalPath = ''/tmp/a.png''\<rparr>"
proof -
  let ?e = "plain_env (\<lambda>c t. Inr (''done'', []))"
  have h: "isDesktop ?e
    \<and> getAvailableUPicPath ?e found_uploader world0 = (Inr (Some ''upic''), found_uploader, world0)
    \<and> ''upic'' \<noteq> []
    \<and> run ?e (uploadCommand ''upic'' ''/tmp/a.png'')
          (uploadTimeout (settings found_uploader) * 1000) = Inr (''done'', [])"
    by (simp add: plain_env_def getAvailableUPicPath_def found_uploader_def)
  have n: "spec_upload_url ''done'' = None"
    by (simp add: spec_upload_url_def spec_first_url_line_def startsWithScheme_def spec_url_at_def
          trim_def trimStart_def trimEnd_def isWhiteSpace_def)
  show ?thesis
    using h n upload_output_parsing
               [of "''done''" ?e found_uploader world0 "''upic''" found_uploader world0
                   "''/tmp/a.png''" "''done''" "[]"]
    by simp
qed

section \<open>Results about discovery\<close>








lemma testUPicPath_again:
  assumes "path \<noteq> []" and "live_positive path u w"
  shows "testUPicPath e path u w = (True, u, w\<lparr>probes := probes w @ [(path, True)]\<rparr>)"
  using assms
  by (auto simp: testUPicPath_def testUPicPath_run_def getCachedAvailability_def live_positive_def
        Let_def split: option.splits)





lemma found_path_short_circuits:
  "detectedUpicPath u = Some p \<Longrightarrow> p \<noteq> [] \<Longrightarrow> getAvailableUPicPath e u w = (Inr (Some p), u, w)"
  by (simp add: getAvailableUPicPath_def)


lemma first_found_example:
  "fst (getAvailableUPicPath running_env fresh_uploader world0)
     = Inr (Some ''/Applications/uPic.app/Contents/MacOS/uPic'')
   \<and> probes (snd (snd (getAvailableUPicPath running_env fresh_uploader world0)))
     = [(''/Applications/uPic.app/Contents/MacOS/uPic'', True),
        (''/Applications/uPic.app/Contents/MacOS/uPic'', True)]
   \<and> spawned (snd (snd (getAvailableUPicPath running_env fresh_uploader world0)))
     = [processCheckCommand running_env]"
proof -
  have t: "testUPicPath running_env ''/Applications/uPic.app/Contents/MacOS/uPic'' fresh_uploader world0
      = (True,
         setCachedAvailability ''/Applications/uPic.app/Contents/MacOS/uPic'' True fresh_uploader
           (world0\<lparr>spawned := spawned world0 @ [processCheckCommand running_env]\<rparr>),
         world0\<lparr>spawned := spawned world0 @ [processCheckCommand running_env],
                probes := probes world0 @ [(''/Applications/uPic.app/Contents/MacOS/uPic'', True)]\<rparr>)"
    by (simp add: testUPicPath_def testUPicPath_run_def getCachedAvailability_def
          running_env_running fresh_uploader_def)
  have d: "detectUPicPath running_env fresh_uploader world0
      = (Inr [''/Applications/uPic.app/Contents/MacOS/uPic''],
         setCachedAvailability ''/Applications/uPic.app/Contents/MacOS/uPic'' True fresh_uploader
           (world0\<lparr>spawned := spawned world0 @ [processCheckCommand running_env]\<rparr>),
         world0\<lparr>spawned := spawned world0 @ [processCheckCommand running_env],
                probes := probes world0 @ [(''/Applications/uPic.app/Contents/MacOS/uPic'', True)]\<rparr>)"
  proof -
    have ui: "userInfo running_env = Inr ''u''" by (simp add: running_env_def plain_env_def)
    have st: "upicPath (settings fresh_uploader) = []" by (simp add: fresh_uploader_def)
    have cp: "map (expandPath running_env) (commonPaths ''u'')
                = ''/Applications/uPic.app/Contents/MacOS/uPic''
                  # map (expandPath running_env) (tl (commonPaths ''u''))"
      by (simp add: commonPaths_def expandPath_def)
    show ?thesis by (simp add: detectUPicPath_def ui st cp t)
  qed
  have dp: "detectedUpicPath fresh_uploader = None" by (simp add: fresh_uploader_def)
  have again: "testUPicPath running_env ''/Applications/uPic.app/Contents/MacOS/uPic''
         (setCachedAvailability ''/Applications/uPic.app/Contents/MacOS/uPic'' True fresh_uploader
           (world0\<lparr>spawned := spawned world0 @ [processCheckCommand running_env]\<rparr>))
         (world0\<lparr>spawned := spawned world0 @ [processCheckCommand running_env],
                probes := probes world0 @ [(''/Applications/uPic.app/Contents/MacOS/uPic'', True)]\<rparr>)
       = (True,
          setCachedAvailability ''/Applications/uPic.app/Contents/MacOS/uPic'' True fresh_uploader
           (world0\<lparr>spawned := spawned world0 @ [processCheckCommand running_env]\<rparr>),
          world0\<lparr>spawned := spawned world0 @ [processCheckCommand running_env],
                 probes := probes world0 @ [(''/Applications/uPic.app/Contents/MacOS/uPic'', True),
                                            (''/Applications/uPic.app/Contents/MacOS/uPic'', True)]\<rparr>)"
    by (rule trans [OF testUPicPath_again])
       (simp_all add: live_positive_def setCachedAvailability_def cacheTimeout_def)
  show ?thesis
    by (simp add: getAvailableUPicPath_def dp d again) (simp add: world0_def)
qed

end
